theory Spec2Isabelle
  imports Main "HOL-Library.Sublist" "HOL-Library.Multiset" "HOL-Library.Char_ord"
    "HOL-Library.List_Lexorder" "HOL-Library.AList"
begin

section \<open>The Go runtime and library routines the sources call\<close>

text \<open>
  A Go function either returns, returns an \<open>error\<close> value, or panics. The three
  outcomes are kept apart: a returned error carries its message, and each kind of
  run-time panic the sources can reach has a constructor of its own.
\<close>

datatype err =
    Error string
  | PanicSliceBounds
  | PanicIndex
  | PanicNilDeref

text \<open>
  Strings are byte lists, as in Go, and a rune outside ASCII is the sequence of bytes
  of its UTF-8 encoding.
\<close>

abbreviation NL :: char where "NL \<equiv> CHR 0x0A"
abbreviation TAB :: char where "TAB \<equiv> CHR 0x09"

text \<open>\<open>strings.Index\<close>: position of the first occurrence, or \<open>-1\<close>.\<close>

fun Index :: "string \<Rightarrow> string \<Rightarrow> int" where
  "Index [] sub = (if sub = [] then 0 else - 1)"
| "Index (c # cs) sub =
     (if prefix sub (c # cs) then 0
      else (let i = Index cs sub in if i < 0 then - 1 else i + 1))"

text \<open>The slice expression \<open>s[lo:hi]\<close>, which panics outside \<open>0 \<le> lo \<le> hi \<le> len(s)\<close>.\<close>

definition slice :: "'a list \<Rightarrow> int \<Rightarrow> int \<Rightarrow> err + 'a list" where
  "slice s lo hi =
     (if 0 \<le> lo \<and> lo \<le> hi \<and> hi \<le> int (length s)
      then Inr (take (nat (hi - lo)) (drop (nat lo) s))
      else Inl PanicSliceBounds)"

text \<open>The index expression \<open>arr[i]\<close>, which panics outside \<open>0 \<le> i < len(arr)\<close>.\<close>

definition index :: "'a list \<Rightarrow> nat \<Rightarrow> err + 'a" where
  "index arr i = (if i < length arr then Inr (arr ! i) else Inl PanicIndex)"

text \<open>
  \<open>strings.Split\<close> for a non-empty separator (the sources split on the record
  separator, the field delimiter, a newline and a tab). The counter is the number of
  bytes of a separator occurrence still to be skipped.
\<close>

fun splitFrom :: "string \<Rightarrow> nat \<Rightarrow> string \<Rightarrow> string \<Rightarrow> string list" where
  "splitFrom sep k acc [] = [acc]"
| "splitFrom sep (Suc k) acc (c # cs) = splitFrom sep k acc cs"
| "splitFrom sep 0 acc (c # cs) =
     (if prefix sep (c # cs) then acc # splitFrom sep (length sep - 1) [] cs
      else splitFrom sep 0 (acc @ [c]) cs)"

definition Split :: "string \<Rightarrow> string \<Rightarrow> string list" where
  "Split s sep = splitFrom sep 0 [] s"

fun Join :: "string list \<Rightarrow> string \<Rightarrow> string" where
  "Join [] sep = []"
| "Join [x] sep = x"
| "Join (x # y # ys) sep = x @ sep @ Join (y # ys) sep"

text \<open>
  \<open>strings.TrimSpace\<close> removes the leading and the trailing white space, as
  \<open>unicode.IsSpace\<close> defines it: the six ASCII characters \<open>\t \n \v \f \r\<close> and
  space, and the runes U+0085, U+00A0, U+1680, U+2000 to U+200A, U+2028, U+2029, U+202F,
  U+205F and U+3000, listed here in UTF-8. A byte that starts no valid encoding decodes
  to the replacement rune, which is no white space, and stops the trimming.
\<close>

definition isSpace :: "char \<Rightarrow> bool" where
  "isSpace c = (c = TAB \<or> c = NL \<or> c = CHR 0x0B \<or> c = CHR 0x0C \<or> c = CHR 0x0D \<or> c = CHR '' '')"

definition unicodeSpaces :: "string list" where
  "unicodeSpaces =
     [[CHR 0xC2, CHR 0x85], [CHR 0xC2, CHR 0xA0], [CHR 0xE1, CHR 0x9A, CHR 0x80],
      [CHR 0xE2, CHR 0x80, CHR 0x80], [CHR 0xE2, CHR 0x80, CHR 0x81],
      [CHR 0xE2, CHR 0x80, CHR 0x82], [CHR 0xE2, CHR 0x80, CHR 0x83],
      [CHR 0xE2, CHR 0x80, CHR 0x84], [CHR 0xE2, CHR 0x80, CHR 0x85],
      [CHR 0xE2, CHR 0x80, CHR 0x86], [CHR 0xE2, CHR 0x80, CHR 0x87],
      [CHR 0xE2, CHR 0x80, CHR 0x88], [CHR 0xE2, CHR 0x80, CHR 0x89],
      [CHR 0xE2, CHR 0x80, CHR 0x8A], [CHR 0xE2, CHR 0x80, CHR 0xA8],
      [CHR 0xE2, CHR 0x80, CHR 0xA9], [CHR 0xE2, CHR 0x80, CHR 0xAF],
      [CHR 0xE2, CHR 0x81, CHR 0x9F], [CHR 0xE3, CHR 0x80, CHR 0x80]]"

text \<open>
  \<open>strings.TrimLeftFunc(s, unicode.IsSpace)\<close>; the counter is the number of bytes of a
  white-space rune still to be skipped. With \<open>spaces\<close> the reversed encodings, the same
  scan over the reversed string is \<open>strings.TrimRightFunc\<close>, which decodes the last rune
  from the nearest byte that starts an encoding.
\<close>

fun trimLeftFrom :: "string list \<Rightarrow> nat \<Rightarrow> string \<Rightarrow> string" where
  "trimLeftFrom spaces k [] = []"
| "trimLeftFrom spaces (Suc k) (c # cs) = trimLeftFrom spaces k cs"
| "trimLeftFrom spaces 0 (c # cs) =
     (if isSpace c then trimLeftFrom spaces 0 cs
      else (case find (\<lambda>w. prefix w (c # cs)) spaces of
              None \<Rightarrow> c # cs
            | Some w \<Rightarrow> trimLeftFrom spaces (length w - 1) cs))"

definition TrimSpace :: "string \<Rightarrow> string" where
  "TrimSpace s =
     rev (trimLeftFrom (map rev unicodeSpaces) 0 (rev (trimLeftFrom unicodeSpaces 0 s)))"

definition isUpper :: "char \<Rightarrow> bool" where
  "isUpper c = (c \<in> set ''ABCDEFGHIJKLMNOPQRSTUVWXYZ'')"

definition isLower :: "char \<Rightarrow> bool" where
  "isLower c = (c \<in> set ''abcdefghijklmnopqrstuvwxyz'')"

definition isDigit :: "char \<Rightarrow> bool" where
  "isDigit c = (c \<in> set ''0123456789'')"

definition lowerChar :: "char \<Rightarrow> char" where
  "lowerChar c =
     (case map_of (zip ''ABCDEFGHIJKLMNOPQRSTUVWXYZ'' ''abcdefghijklmnopqrstuvwxyz'') c of
        None \<Rightarrow> c
      | Some l \<Rightarrow> l)"

text \<open>
  \<open>strings.ToLower\<close>. A string of ASCII bytes only is lowered byte by byte. Any other
  string is returned as \<open>strings.Map(unicode.ToLower, s)\<close>, which decodes the runes and
  maps each through the case tables of the \<open>unicode\<close> package; these tables are not
  part of the sources, and the mapping of such a string is the parameter \<open>unicodeLower\<close>.
\<close>

definition isASCII :: "char \<Rightarrow> bool" where
  "isASCII c = (\<not> digit7 c)"

definition ToLower :: "(string \<Rightarrow> string) \<Rightarrow> string \<Rightarrow> string" where
  "ToLower unicodeLower s = (if list_all isASCII s then map lowerChar s else unicodeLower s)"

text \<open>
  \<open>strconv.Atoi\<close>: an optional sign and at least one decimal digit, within the range of
  a 64-bit \<open>int\<close>; anything else is an error (\<open>None\<close>).
\<close>

definition Atoi :: "string \<Rightarrow> int option" where
  "Atoi s =
     (let (neg, ds) =
            (case s of
               [] \<Rightarrow> (False, s)
             | c # r \<Rightarrow> if c = CHR ''-'' then (True, r)
                        else if c = CHR ''+'' then (False, r) else (False, s))
      in if ds = [] \<or> \<not> list_all isDigit ds then None
         else (let n = foldl (\<lambda>a c. 10 * a + (of_char c - 48)) 0 ds;
                   v = (if neg then - n else n)
               in if - (2 ^ 63) \<le> v \<and> v < 2 ^ 63 then Some v else None))"

subsection \<open>Regular expressions\<close>

text \<open>
  A compiled \<open>*regexp.Regexp\<close> is used through two methods. \<open>FindAllStringSubmatch\<close>
  returns the successive non-overlapping matches; for a pattern with \<open>k\<close> capture groups
  each match is a slice of \<open>k + 1\<close> strings, the whole match first. A match is
  modelled as the pair of the whole match and the submatches, whose shape \<open>'g\<close> is fixed
  by the pattern: a tuple for the patterns the parser builds itself, a list for the
  configured ones. So \<open>r[i]\<close> on a match is a projection and \<open>res[0][1:]\<close> is the
  second component. \<open>ReplaceAllString\<close> takes the source and the replacement.
\<close>

record 'g Regexp =
  FindAllStringSubmatch :: "string \<Rightarrow> (string \<times> 'g) list"
  ReplaceAllString :: "string \<Rightarrow> string \<Rightarrow> string"

text \<open>
  The syntax tree of the fragment of RE2 that the parser's own patterns use: literals
  (exact, or folded for \<open>(?i)\<close>), character classes with the quantifiers \<open>?\<close>, \<open>*\<close> and
  \<open>+\<close> on them, numbered capture groups, optional groups, alternation, sequence, \<open>^\<close>
  and \<open>$\<close> (no multi-line flag). The matcher reads bytes, which is Go's matching on
  ASCII patterns and ASCII text; of a rune outside ASCII every byte is matched by \<open>.\<close>
  and by no other class, and \<open>(?i)\<close> folds the ASCII letters.
\<close>

datatype rx =
    Eps
  | Lit string
  | LitI string
  | Cls "char \<Rightarrow> bool"
  | Star "char \<Rightarrow> bool"
  | Plus "char \<Rightarrow> bool"
  | Opt rx
  | Grp nat rx
  | Alt rx rx
  | Seq rx rx
  | Bol
  | Eol

type_synonym caps = "nat \<Rightarrow> string"

text \<open>A literal under \<open>(?i)\<close>: \<open>l\<close> is a prefix of \<open>s\<close> up to the case of letters.\<close>

fun prefixFold :: "string \<Rightarrow> string \<Rightarrow> bool" where
  "prefixFold [] s = True"
| "prefixFold (a # l) [] = False"
| "prefixFold (a # l) (x # s) = (if lowerChar a = lowerChar x then prefixFold l s else False)"

text \<open>
  \<open>matches r b s c\<close> lists, in the order a backtracking search tries them (earlier
  alternative first, greedy quantifiers longest first), every way \<open>r\<close> matches a prefix
  of \<open>s\<close>: the rest of the input and the captures. \<open>b\<close> says that \<open>s\<close> starts at the
  beginning of the text. Go's matcher returns the match a backtracking search finds
  first, which is the head of this list.
\<close>

fun matches :: "rx \<Rightarrow> bool \<Rightarrow> string \<Rightarrow> caps \<Rightarrow> (string \<times> caps) list" where
  "matches Eps b s c = [(s, c)]"
| "matches (Lit l) b s c = (if prefix l s then [(drop (length l) s, c)] else [])"
| "matches (LitI l) b s c = (if prefixFold l s then [(drop (length l) s, c)] else [])"
| "matches (Cls P) b s c = (case s of [] \<Rightarrow> [] | x # xs \<Rightarrow> if P x then [(xs, c)] else [])"
| "matches (Star P) b s c = map (\<lambda>k. (drop k s, c)) (rev [0 ..< Suc (length (takeWhile P s))])"
| "matches (Plus P) b s c = map (\<lambda>k. (drop k s, c)) (rev [1 ..< Suc (length (takeWhile P s))])"
| "matches (Opt r) b s c = matches r b s c @ [(s, c)]"
| "matches (Grp n r) b s c =
     map (\<lambda>(rest, c'). (rest, c'(n := take (length s - length rest) s))) (matches r b s c)"
| "matches (Alt r1 r2) b s c = matches r1 b s c @ matches r2 b s c"
| "matches (Seq r1 r2) b s c =
     concat (map (\<lambda>(rest, c'). matches r2 (b \<and> length rest = length s) rest c') (matches r1 b s c))"
| "matches Bol b s c = (if b then [(s, c)] else [])"
| "matches Eol b s c = (if s = [] then [(s, c)] else [])"

text \<open>The first match at the current position: its length and its captures.\<close>

definition matchHere :: "rx \<Rightarrow> bool \<Rightarrow> string \<Rightarrow> (nat \<times> caps) option" where
  "matchHere r b s =
     (case matches r b s (\<lambda>_. []) of
        [] \<Rightarrow> None
      | (rest, c) # _ \<Rightarrow> Some (length s - length rest, c))"

text \<open>
  The scan of \<open>FindAllStringSubmatch(s, -1)\<close>. \<open>b\<close>: at the beginning of the text;
  \<open>pe\<close>: the previous match ended here (an empty match there is dropped); the counter
  is the number of bytes of the current match still to be skipped.
\<close>

fun findAllFrom :: "rx \<Rightarrow> bool \<Rightarrow> bool \<Rightarrow> nat \<Rightarrow> string \<Rightarrow> (string \<times> caps) list" where
  "findAllFrom r b pe (Suc k) [] = []"
| "findAllFrom r b pe (Suc k) (x # xs) = findAllFrom r False True k xs"
| "findAllFrom r b pe 0 [] =
     (case matchHere r b [] of
        None \<Rightarrow> []
      | Some (n, c) \<Rightarrow> if pe then [] else [([], c)])"
| "findAllFrom r b pe 0 (x # xs) =
     (case matchHere r b (x # xs) of
        None \<Rightarrow> findAllFrom r False False 0 xs
      | Some (n, c) \<Rightarrow>
          if n = 0 then (if pe then [] else [([], c)]) @ findAllFrom r False False 0 xs
          else (take n (x # xs), c) # findAllFrom r False True (n - 1) xs)"

text \<open>
  The scan of \<open>ReplaceAllString\<close> with a replacement that holds no \<open>$\<close> template (the
  only call in the sources passes the empty string).
\<close>

fun replaceAllFrom :: "rx \<Rightarrow> string \<Rightarrow> bool \<Rightarrow> bool \<Rightarrow> nat \<Rightarrow> string \<Rightarrow> string" where
  "replaceAllFrom r repl b pe (Suc k) [] = []"
| "replaceAllFrom r repl b pe (Suc k) (x # xs) = replaceAllFrom r repl False True k xs"
| "replaceAllFrom r repl b pe 0 [] =
     (case matchHere r b [] of
        None \<Rightarrow> []
      | Some (n, c) \<Rightarrow> if pe then [] else repl)"
| "replaceAllFrom r repl b pe 0 (x # xs) =
     (case matchHere r b (x # xs) of
        None \<Rightarrow> x # replaceAllFrom r repl False False 0 xs
      | Some (n, c) \<Rightarrow>
          if n = 0 then (if pe then [] else repl) @ x # replaceAllFrom r repl False False 0 xs
          else repl @ replaceAllFrom r repl False True (n - 1) xs)"

text \<open>\<open>regexp.MustCompile\<close> on a pattern of the fragment; \<open>sel\<close> reads the submatches.\<close>

definition MustCompile :: "rx \<Rightarrow> (caps \<Rightarrow> 'g) \<Rightarrow> 'g Regexp" where
  "MustCompile r sel =
     \<lparr> FindAllStringSubmatch = (\<lambda>s. map (\<lambda>(w, c). (w, sel c)) (findAllFrom r True False 0 s)),
       ReplaceAllString = (\<lambda>s repl. replaceAllFrom r repl True False 0 s) \<rparr>"

text \<open>The submatches of a pattern with one, two and three capture groups.\<close>

definition groups1 :: "caps \<Rightarrow> string" where
  "groups1 c = c 1"

definition groups2 :: "caps \<Rightarrow> string \<times> string" where
  "groups2 c = (c 1, c 2)"

definition groups3 :: "caps \<Rightarrow> string \<times> string \<times> string" where
  "groups3 c = (c 1, c 2, c 3)"

text \<open>The character classes of the parser's patterns.\<close>

definition reSpace :: "char \<Rightarrow> bool" where
  "reSpace c = (c = TAB \<or> c = NL \<or> c = CHR 0x0C \<or> c = CHR 0x0D \<or> c = CHR '' '')"

definition reWord :: "char \<Rightarrow> bool" where
  "reWord c = (isDigit c \<or> isUpper c \<or> isLower c \<or> c = CHR ''_'')"

definition reAny :: "char \<Rightarrow> bool" where
  "reAny c = (c \<noteq> NL)"

text \<open>The alternatives \<open>r1|...|rn\<close> in order; no alternative gives the empty pattern.\<close>

fun alts :: "rx list \<Rightarrow> rx" where
  "alts [] = Eps"
| "alts [r] = r"
| "alts (r # r' # rs) = Alt r (alts (r' # rs))"

fun seqs :: "rx list \<Rightarrow> rx" where
  "seqs [] = Eps"
| "seqs [r] = r"
| "seqs (r # r' # rs) = Seq r (seqs (r' # rs))"

text \<open>Sequencing of fallible steps: the first error or panic ends the computation.\<close>

definition andThen :: "err + 'a \<Rightarrow> ('a \<Rightarrow> err + 'b) \<Rightarrow> err + 'b" where
  "andThen m f = (case m of Inl e \<Rightarrow> Inl e | Inr x \<Rightarrow> f x)"

section \<open>Data model\<close>

record Hash =
  Long :: string
  Short :: string

text \<open>\<open>Date\<close> is a \<open>time.Time\<close> built by \<open>time.Unix(ts, 0)\<close>: the seconds since the epoch.\<close>

record Author =
  Name :: string
  Email :: string
  Date :: int

record Committer =
  Name :: string
  Email :: string
  Date :: int

record Contact =
  Name :: string
  Email :: string

record Ref =
  Action :: string
  Source :: string
  Ref :: string

record Note =
  Title :: string
  Body :: string

record JiraIssue =
  Type :: string
  Summary :: string
  Description :: string
  Labels :: "string list"

record NoteGroup =
  Title :: string
  Notes :: "Note list"

text \<open>
  The declarations of \<open>Merge\<close> and \<open>Revert\<close> are not in the sources. They are the
  dynamically bound records of the specification: the field names bound so far, each
  with its value.
\<close>

type_synonym Merge = "(string \<times> string) list"
type_synonym Revert = "(string \<times> string) list"

text \<open>
  A \<open>Commit\<close> holds its sub-commits, which are commits again. The fields other than
  \<open>SubCommits\<close> form the record \<open>CommitData\<close>; a pointer field that may be \<open>nil\<close> is
  an \<open>option\<close>. The elements of \<open>SubCommits\<close> are the non-nil pointers the parser
  appends.
\<close>

record CommitData =
  Hash :: "Hash option"
  Author :: "Author option"
  Committer :: "Committer option"
  Merge :: "Merge option"
  Revert :: "Revert option"
  Refs :: "Ref list"
  Notes :: "Note list"
  Mentions :: "string list"
  CoAuthors :: "Contact list"
  Signers :: "Contact list"
  JiraIssue :: "JiraIssue option"
  Header :: string
  Type :: string
  Scope :: string
  Subject :: string
  JiraIssueID :: string
  Body :: string
  TrimmedBody :: string
  ChangedFiles :: "string list"

datatype Commit = Commit (data: CommitData) (SubCommits: "Commit list")

text \<open>Assignment to fields of \<open>*commit\<close> other than \<open>SubCommits\<close>.\<close>

definition upd :: "(CommitData \<Rightarrow> CommitData) \<Rightarrow> Commit \<Rightarrow> Commit" where
  "upd f c = Commit (f (data c)) (SubCommits c)"

text \<open>The zero value \<open>Commit{}\<close>.\<close>

definition zeroCommit :: Commit where
  "zeroCommit =
     Commit \<lparr> Hash = None, Author = None, Committer = None, Merge = None, Revert = None,
              Refs = [], Notes = [], Mentions = [], CoAuthors = [], Signers = [],
              JiraIssue = None, Header = [], Type = [], Scope = [], Subject = [],
              JiraIssueID = [], Body = [], TrimmedBody = [], ChangedFiles = [] \<rparr> []"

record CommitGroup =
  RawTitle :: string
  Title :: string
  Commits :: "Commit list"

text \<open>
  The value an \<open>interface{}\<close> holds when the field accessor resolves a path: a string,
  or something of another kind.
\<close>

datatype Value = StringValue string | IntValue int | TimeValue int | OtherValue

text \<open>The fields of \<open>jira.Issue\<close> that the parser reads.\<close>

record Issue =
  TypeName :: string
  IssueSummary :: string
  IssueDescription :: string
  IssueLabels :: "string list"

text \<open>
  The options the sources read. The two maps of the configuration with string keys are
  partial functions; \<open>CommitFilters\<close> is iterated, so it is the list of its entries in
  the order of the iteration (Go leaves that order open). A \<open>Processor\<close> is optional,
  and \<open>ProcessCommit\<close> may return \<open>nil\<close>.
\<close>

record Options =
  Paths :: "string list"
  Processor :: "(Commit \<Rightarrow> Commit option) option"
  HeaderPatternMaps :: "string list"
  MergePatternMaps :: "string list"
  RevertPatternMaps :: "string list"
  RefActions :: "string list"
  IssuePrefix :: "string list"
  NoteKeywords :: "string list"
  MultilineCommit :: bool
  JiraTypeMaps :: "string \<rightharpoonup> string"
  JiraIssueDescriptionPattern :: string
  CommitFilters :: "(string \<times> string list) list"
  NoCaseSensitive :: bool
  CommitGroupBy :: string
  CommitGroupSortBy :: string
  CommitGroupTitleOrder :: "string list"
  CommitGroupTitleMaps :: "string \<rightharpoonup> string"
  CommitSortBy :: string

record Config =
  Options :: Options

text \<open>
  The parser. \<open>client\<close> is \<open>gitcmd.Client.Exec\<close> (sub-command and arguments to output
  or error message), \<open>jiraClient\<close> is \<open>JiraClient.GetJiraIssue\<close>. The logger has no
  effect on any result and is left out.
\<close>

record commitParser =
  client :: "string \<Rightarrow> string list \<Rightarrow> string + string"
  jiraClient :: "string \<Rightarrow> string + Issue"
  config :: Config
  reHeader :: "string list Regexp"
  reMerge :: "string list Regexp"
  reRevert :: "string list Regexp"
  reRef :: "(string \<times> string \<times> string) Regexp"
  reIssue :: "string Regexp"
  reNotes :: "(string \<times> string) Regexp"
  reMention :: "string Regexp"
  reSignOff :: "(string \<times> string) Regexp"
  reCoAuthor :: "(string \<times> string) Regexp"
  reJiraIssueDescription :: "string list Regexp"

section \<open>The commit parser\<close>

definition separator :: string where "separator = ''@@__CHGLOG__@@''"
definition delimiter :: string where "delimiter = ''@@__CHGLOG_DELIMITER__@@''"

definition hashField :: string where "hashField = ''HASH''"
definition authorField :: string where "authorField = ''AUTHOR''"
definition committerField :: string where "committerField = ''COMMITTER''"
definition subjectField :: string where "subjectField = ''SUBJECT''"
definition bodyField :: string where "bodyField = ''BODY''"

definition hashFormat :: string where "hashFormat = hashField @ '':%H'' @ [TAB] @ ''%h''"
definition authorFormat :: string where
  "authorFormat = authorField @ '':%an'' @ [TAB] @ ''%ae'' @ [TAB] @ ''%at''"
definition committerFormat :: string where
  "committerFormat = committerField @ '':%cn'' @ [TAB] @ ''%ce'' @ [TAB] @ ''%ct''"
definition subjectFormat :: string where "subjectFormat = subjectField @ '':%s''"
definition bodyFormat :: string where "bodyFormat = bodyField @ '':%b''"

definition logFormat :: string where
  "logFormat =
     separator @ Join [hashFormat, authorFormat, committerFormat, subjectFormat, bodyFormat] delimiter"

text \<open>
  \<open>joinAndQuoteMeta(list, "|")\<close>: \<open>regexp.QuoteMeta\<close> makes every keyword a literal,
  and the literals are joined into an alternation. \<open>lit\<close> is \<open>Lit\<close>, or \<open>LitI\<close>
  where the pattern that receives the result is under \<open>(?i)\<close>.
\<close>

definition joinAndQuoteMeta :: "(string \<Rightarrow> rx) \<Rightarrow> string list \<Rightarrow> rx" where
  "joinAndQuoteMeta lit list = alts (map lit list)"

text \<open>
  The patterns \<open>newCommitParser\<close> builds, from the joined keywords. \<open>(?i)\<close> folds the
  literals of the whole pattern; the character classes under it hold both cases
  already. \<open>\p{L}\<close> is the ASCII letters here.
\<close>

definition rxRef :: "string list \<Rightarrow> string list \<Rightarrow> rx" where
  "rxRef refActions issuePrefix =
     seqs [Grp 1 (joinAndQuoteMeta LitI refActions),
           Opt (Cls reSpace),
           Opt (Grp 2 (Plus (\<lambda>c. reWord c \<or> c = CHR ''/'' \<or> c = CHR ''.'' \<or> c = CHR ''-''))),
           joinAndQuoteMeta LitI issuePrefix,
           Grp 3 (Plus isDigit)]"

definition rxIssue :: "string list \<Rightarrow> rx" where
  "rxIssue issuePrefix = seqs [joinAndQuoteMeta Lit issuePrefix, Grp 1 (Plus isDigit)]"

definition rxNotes :: "string list \<Rightarrow> rx" where
  "rxNotes noteKeywords =
     seqs [Bol, Star reSpace, Grp 1 (joinAndQuoteMeta LitI noteKeywords),
           Plus (\<lambda>c. c = CHR '':'' \<or> reSpace c), Grp 2 (Star reAny)]"

definition rxMention :: rx where
  "rxMention = seqs [Lit ''@'', Grp 1 (Plus (\<lambda>c. reWord c \<or> c = CHR ''-''))]"

definition rxTrailer :: "string \<Rightarrow> rx" where
  "rxTrailer key =
     seqs [Lit key, Plus reSpace,
           Grp 1 (Plus (\<lambda>c. isUpper c \<or> isLower c \<or> reSpace c \<or> c = CHR ''-'' \<or> c = CHR ''[''
                          \<or> c = CHR '']'')),
           Plus reSpace, Lit ''<'',
           Grp 2 (Plus (\<lambda>c. reWord c \<or> c = CHR ''+'' \<or> c = CHR ''-'' \<or> c = CHR ''['' \<or> c = CHR '']''
                          \<or> c = CHR ''.'' \<or> c = CHR ''@'')),
           Lit ''>'']"

text \<open>
  \<open>newCommitParser\<close>. The four configured patterns (header, merge, revert, Jira issue
  description) are arbitrary; the arguments \<open>hdr\<close>, \<open>mrg\<close>, \<open>rvt\<close> and \<open>jdesc\<close> are
  what \<open>regexp.MustCompile\<close> returns for them.
\<close>

definition newCommitParser ::
  "(string \<Rightarrow> string list \<Rightarrow> string + string) \<Rightarrow> (string \<Rightarrow> string + Issue) \<Rightarrow> Config \<Rightarrow>
   string list Regexp \<Rightarrow> string list Regexp \<Rightarrow> string list Regexp \<Rightarrow> string list Regexp \<Rightarrow>
   commitParser" where
  "newCommitParser cl jira cfg hdr mrg rvt jdesc =
     (let opts = Options cfg in
      \<lparr> client = cl,
        jiraClient = jira,
        config = cfg,
        reHeader = hdr,
        reMerge = mrg,
        reRevert = rvt,
        reRef = MustCompile (rxRef (RefActions opts) (IssuePrefix opts)) groups3,
        reIssue = MustCompile (rxIssue (IssuePrefix opts)) groups1,
        reNotes = MustCompile (rxNotes (NoteKeywords opts)) groups2,
        reMention = MustCompile rxMention groups1,
        reSignOff = MustCompile (rxTrailer ''Signed-off-by:'') groups2,
        reCoAuthor = MustCompile (rxTrailer ''Co-authored-by:'') groups2,
        reJiraIssueDescription = jdesc \<rparr>)"

text \<open>
  Modelled from the spec: \<open>assignDynamicValues\<close> is not in the sources. It binds the
  capture groups positionally to the configured field names: the \<open>i\<close>-th name, when it
  names a string field of the target, receives the \<open>i\<close>-th value. The specification
  does not say what a name without a capture group receives; here it is not bound.
  \<open>setter\<close> is the table of the target's string fields.
\<close>

definition assignDynamicValues ::
  "(string \<Rightarrow> (string \<Rightarrow> 't \<Rightarrow> 't) option) \<Rightarrow> 't \<Rightarrow> string list \<Rightarrow> string list \<Rightarrow> 't" where
  "assignDynamicValues setter target attrs values =
     fold (\<lambda>(field, v) t. case setter field of None \<Rightarrow> t | Some assign \<Rightarrow> assign v t)
       (zip attrs values) target"

text \<open>
  Modelled from the spec: the declaration of \<open>Commit\<close> is not in the sources; these are
  its string fields as the data model of the specification lists them.
\<close>

definition commitFields :: "string \<Rightarrow> (string \<Rightarrow> Commit \<Rightarrow> Commit) option" where
  "commitFields field =
     (if field = ''Header'' then Some (\<lambda>v. upd (\<lambda>d. d\<lparr>Header := v\<rparr>))
      else if field = ''Type'' then Some (\<lambda>v. upd (\<lambda>d. d\<lparr>CommitData.Type := v\<rparr>))
      else if field = ''Scope'' then Some (\<lambda>v. upd (\<lambda>d. d\<lparr>Scope := v\<rparr>))
      else if field = ''Subject'' then Some (\<lambda>v. upd (\<lambda>d. d\<lparr>Subject := v\<rparr>))
      else if field = ''JiraIssueID'' then Some (\<lambda>v. upd (\<lambda>d. d\<lparr>JiraIssueID := v\<rparr>))
      else if field = ''Body'' then Some (\<lambda>v. upd (\<lambda>d. d\<lparr>CommitData.Body := v\<rparr>))
      else if field = ''TrimmedBody'' then Some (\<lambda>v. upd (\<lambda>d. d\<lparr>TrimmedBody := v\<rparr>))
      else None)"

definition dynFields :: "string \<Rightarrow> (string \<Rightarrow> (string \<times> string) list \<Rightarrow> (string \<times> string) list) option" where
  "dynFields field = Some (\<lambda>v. AList.update field v)"

text \<open>
  Modelled from the spec: \<open>convNewline\<close> is not in the sources. It normalises line
  endings: \<open>\r\n\<close> and a lone \<open>\r\<close> become the given newline code.
\<close>

fun convNewline :: "string \<Rightarrow> string \<Rightarrow> string" where
  "convNewline [] nlcode = []"
| "convNewline (c # cs) nlcode =
     (if c = CHR 0x0D then
        (case cs of
           [] \<Rightarrow> nlcode
         | d # ds \<Rightarrow> if d = NL then nlcode @ convNewline ds nlcode
                    else nlcode @ convNewline cs nlcode)
      else if c = NL then nlcode @ convNewline cs nlcode
      else c # convNewline cs nlcode)"

definition parseHash :: "string \<Rightarrow> err + Hash" where
  "parseHash input =
     (let arr = Split input [TAB] in
      andThen (index arr 0) (\<lambda>long.
      andThen (index arr 1) (\<lambda>short.
      Inr \<lparr> Long = long, Short = short \<rparr>)))"

definition parseAuthor :: "string \<Rightarrow> err + Author" where
  "parseAuthor input =
     (let arr = Split input [TAB] in
      andThen (index arr 2) (\<lambda>a2.
      let ts = (case Atoi a2 of None \<Rightarrow> 0 | Some n \<Rightarrow> n) in
      andThen (index arr 0) (\<lambda>name.
      andThen (index arr 1) (\<lambda>email.
      Inr \<lparr> Author.Name = name, Author.Email = email, Author.Date = ts \<rparr>))))"

definition parseCommitter :: "string \<Rightarrow> err + Committer" where
  "parseCommitter input =
     andThen (parseAuthor input) (\<lambda>author.
     Inr \<lparr> Committer.Name = Author.Name author, Committer.Email = Author.Email author,
           Committer.Date = Author.Date author \<rparr>)"

fun issuesLoop :: "Ref list \<Rightarrow> (string \<times> string) list \<Rightarrow> Ref list" where
  "issuesLoop refs [] = refs"
| "issuesLoop refs ((r0, r1) # res) =
     (let duplicate = list_ex (\<lambda>ref. Ref ref = r1) refs in
      issuesLoop (if \<not> duplicate then refs @ [\<lparr> Action = [], Source = [], Ref = r1 \<rparr>] else refs) res)"

definition parseRefs :: "commitParser \<Rightarrow> string \<Rightarrow> Ref list" where
  "parseRefs p input =
     (let refs = map (\<lambda>(r0, r1, r2, r3). \<lparr> Action = r1, Source = r2, Ref = r3 \<rparr>)
                   (FindAllStringSubmatch (reRef p) input)
      in issuesLoop refs (FindAllStringSubmatch (reIssue p) input))"

definition parseSigners :: "commitParser \<Rightarrow> string \<Rightarrow> Contact list" where
  "parseSigners p input =
     map (\<lambda>(r0, r1, r2). \<lparr> Contact.Name = r1, Contact.Email = r2 \<rparr>)
       (FindAllStringSubmatch (reSignOff p) input)"

definition parseCoAuthors :: "commitParser \<Rightarrow> string \<Rightarrow> Contact list" where
  "parseCoAuthors p input =
     map (\<lambda>(r0, r1, r2). \<lparr> Contact.Name = r1, Contact.Email = r2 \<rparr>)
       (FindAllStringSubmatch (reCoAuthor p) input)"

definition parseMentions :: "commitParser \<Rightarrow> string \<Rightarrow> string list" where
  "parseMentions p input = map (\<lambda>(r0, r1). r1) (FindAllStringSubmatch (reMention p) input)"

fun uniqRefsLoop :: "Ref list \<Rightarrow> Ref list \<Rightarrow> Ref list" where
  "uniqRefsLoop arr [] = arr"
| "uniqRefsLoop arr (ref # refs) =
     (let exist = list_ex (\<lambda>r. Ref ref = Ref r \<and> Action ref = Action r \<and> Source ref = Source r) arr
      in uniqRefsLoop (if \<not> exist then arr @ [ref] else arr) refs)"

definition uniqRefs :: "Ref list \<Rightarrow> Ref list" where
  "uniqRefs refs = uniqRefsLoop [] refs"

fun uniqMentionsLoop :: "string list \<Rightarrow> string list \<Rightarrow> string list" where
  "uniqMentionsLoop arr [] = arr"
| "uniqMentionsLoop arr (mention # mentions) =
     (let exist = list_ex (\<lambda>m. mention = m) arr
      in uniqMentionsLoop (if \<not> exist then arr @ [mention] else arr) mentions)"

definition uniqMentions :: "string list \<Rightarrow> string list" where
  "uniqMentions mentions = uniqMentionsLoop [] mentions"

text \<open>
  \<open>processJiraIssue\<close>. A failed lookup is logged and the commit is left as it is.
  \<open>FindStringSubmatch\<close> is the first match; \<open>len(res) > 1\<close> asks for a first group.
\<close>

definition processJiraIssue :: "commitParser \<Rightarrow> Commit \<Rightarrow> string \<Rightarrow> Commit" where
  "processJiraIssue p commit issueID =
     (case jiraClient p (JiraIssueID (data commit)) of
        Inl e \<Rightarrow> commit
      | Inr issue \<Rightarrow>
          (let opts = Options (config p);
               description =
                 (if JiraIssueDescriptionPattern opts \<noteq> [] then
                    (case FindAllStringSubmatch (reJiraIssueDescription p) (IssueDescription issue) of
                       (r0, r1 # rs) # others \<Rightarrow> r1
                     | _ \<Rightarrow> IssueDescription issue)
                  else IssueDescription issue)
           in upd (\<lambda>d. d\<lparr> CommitData.Type :=
                            (case JiraTypeMaps opts (TypeName issue) of None \<Rightarrow> [] | Some t \<Rightarrow> t),
                          JiraIssue :=
                            Some \<lparr> JiraIssue.Type = TypeName issue, Summary = IssueSummary issue,
                                   Description = description, Labels = IssueLabels issue \<rparr> \<rparr>)
                commit))"

definition processHeader :: "commitParser \<Rightarrow> Commit \<Rightarrow> string \<Rightarrow> Commit" where
  "processHeader p commit0 input =
     (let opts = Options (config p);
          commit1 = upd (\<lambda>d. d\<lparr>Header := input\<rparr>) commit0;
          commit2 =
            (case FindAllStringSubmatch (reHeader p) input of
               [] \<Rightarrow> commit1
             | (r0, groups) # others \<Rightarrow>
                 assignDynamicValues commitFields commit1 (HeaderPatternMaps opts) groups);
          commit3 =
            (case FindAllStringSubmatch (reMerge p) input of
               [] \<Rightarrow> commit2
             | (r0, groups) # others \<Rightarrow>
                 upd (\<lambda>d. d\<lparr>Merge :=
                        Some (assignDynamicValues dynFields [] (MergePatternMaps opts) groups)\<rparr>) commit2);
          commit4 =
            (case FindAllStringSubmatch (reRevert p) input of
               [] \<Rightarrow> commit3
             | (r0, groups) # others \<Rightarrow>
                 upd (\<lambda>d. d\<lparr>Revert :=
                        Some (assignDynamicValues dynFields [] (RevertPatternMaps opts) groups)\<rparr>) commit3);
          commit5 = upd (\<lambda>d. d\<lparr>Refs := parseRefs p input, Mentions := parseMentions p input\<rparr>) commit4
      in if JiraIssueID (data commit5) \<noteq> [] then processJiraIssue p commit5 (JiraIssueID (data commit5))
         else commit5)"

definition extractLineMetadata :: "commitParser \<Rightarrow> Commit \<Rightarrow> string \<Rightarrow> bool \<times> Commit" where
  "extractLineMetadata p commit0 line =
     (let refs = parseRefs p line;
          (meta1, commit1) =
            (if length refs > 0 then (True, upd (\<lambda>d. d\<lparr>Refs := Refs d @ refs\<rparr>) commit0)
             else (False, commit0));
          mentions = parseMentions p line;
          (meta2, commit2) =
            (if length mentions > 0 then (True, upd (\<lambda>d. d\<lparr>Mentions := Mentions d @ mentions\<rparr>) commit1)
             else (meta1, commit1));
          coAuthors = parseCoAuthors p line;
          (meta3, commit3) =
            (if length coAuthors > 0 then (True, upd (\<lambda>d. d\<lparr>CoAuthors := CoAuthors d @ coAuthors\<rparr>) commit2)
             else (meta2, commit2));
          signers = parseSigners p line;
          (meta4, commit4) =
            (if length signers > 0 then (True, upd (\<lambda>d. d\<lparr>Signers := Signers d @ signers\<rparr>) commit3)
             else (meta3, commit3))
      in (meta4, commit4))"

subsection \<open>The fence detector\<close>

definition fenceTypes :: "string list" where
  "fenceTypes = [''```'', ''~~~'', ''    '', [TAB]]"

record mdFenceDetector =
  fence :: int

definition newMdFenceDetector :: mdFenceDetector where
  "newMdFenceDetector = \<lparr> fence = - 1 \<rparr>"

definition InCodeblock :: "mdFenceDetector \<Rightarrow> bool" where
  "InCodeblock d = (fence d > - 1)"

text \<open>The loop of \<open>Update\<close> over the fence types from index \<open>i\<close> on; \<open>break\<close> ends it.\<close>

fun UpdateLoop :: "mdFenceDetector \<Rightarrow> string \<Rightarrow> nat \<Rightarrow> string list \<Rightarrow> mdFenceDetector" where
  "UpdateLoop d input i [] = d"
| "UpdateLoop d input i (s # rest) =
     (if fence d < 0 then
        (if Index input s = 0 then d\<lparr>fence := int i\<rparr>
         else UpdateLoop d input (Suc i) rest)
      else
        (if Index input s = 0 \<and> int i = fence d then d\<lparr>fence := - 1\<rparr>
         else UpdateLoop d input (Suc i) rest))"

definition Update :: "mdFenceDetector \<Rightarrow> string \<Rightarrow> mdFenceDetector" where
  "Update d input = UpdateLoop d input 0 fenceTypes"

subsection \<open>Body processing\<close>

text \<open>
  The body of the loop over the note-stripped lines (taken for a line on which the
  header pattern matched, \<open>groups\<close> being \<open>res[0][1:]\<close>): the sub-commit it appends.
\<close>

definition subCommitOf :: "commitParser \<Rightarrow> Commit \<Rightarrow> string \<Rightarrow> string list \<Rightarrow> Commit" where
  "subCommitOf p commit i groups =
     (let opts = Options (config p);
          subCommit0 =
            upd (\<lambda>d. d\<lparr> Header := i,
                        Hash := Hash (data commit),
                        Author := Author (data commit),
                        Committer := Committer (data commit),
                        ChangedFiles := ChangedFiles (data commit) \<rparr>) zeroCommit;
          subCommit1 = assignDynamicValues commitFields subCommit0 (HeaderPatternMaps opts) groups;
          refs = parseRefs p i;
          subCommit2 = (if length refs > 0 then upd (\<lambda>d. d\<lparr>Refs := refs\<rparr>) subCommit1 else subCommit1);
          mentions = parseMentions p i;
          subCommit3 =
            (if length mentions > 0 then upd (\<lambda>d. d\<lparr>Mentions := parseMentions p i\<rparr>) subCommit2
             else subCommit2)
      in if JiraIssueID (data subCommit3) \<noteq> []
         then processJiraIssue p subCommit3 (JiraIssueID (data subCommit3))
         else subCommit3)"

fun subCommitsLoop :: "commitParser \<Rightarrow> Commit \<Rightarrow> string list \<Rightarrow> Commit" where
  "subCommitsLoop p commit [] = commit"
| "subCommitsLoop p commit (i # inputs) =
     (case FindAllStringSubmatch (reHeader p) i of
        [] \<Rightarrow> subCommitsLoop p commit inputs
      | (r0, groups) # others \<Rightarrow>
          subCommitsLoop p
            (Commit (data commit) (SubCommits commit @ [subCommitOf p commit i groups])) inputs)"

text \<open>The variables of the loop over the lines of the body.\<close>

record bodyVars =
  bCommit :: Commit
  inNote :: bool
  trim :: bool
  fenceDetector :: mdFenceDetector
  trimmedBody :: "string list"

text \<open>
  One iteration. \<open>commit.Notes[len(commit.Notes)-1]\<close> is an index expression, so it
  has its panic.
\<close>

definition bodyStep :: "commitParser \<Rightarrow> bodyVars \<Rightarrow> string \<Rightarrow> err + bodyVars" where
  "bodyStep p v line =
     (let trim1 = (if \<not> inNote v then False else trim v);
          fd = Update (fenceDetector v) line;
          (meta, commit1) =
            (if \<not> InCodeblock fd then extractLineMetadata p (bCommit v) line else (False, bCommit v));
          (trim2, inNote2) = (if \<not> InCodeblock fd \<and> meta then (True, False) else (trim1, inNote v));
          res = FindAllStringSubmatch (reNotes p) line
      in andThen
           (if length res > 0 then
              Inr (upd (\<lambda>d. d\<lparr>CommitData.Notes := CommitData.Notes d @
                             map (\<lambda>(r0, r1, r2). \<lparr> Note.Title = r1, Note.Body = r2 \<rparr>) res\<rparr>) commit1,
                   True, True)
            else if inNote2 then
              (case CommitData.Notes (data commit1) of
                 [] \<Rightarrow> Inl PanicIndex
               | n # ns \<Rightarrow>
                   (let notes = n # ns; last = last notes in
                    Inr (upd (\<lambda>d. d\<lparr>CommitData.Notes :=
                                  butlast notes @ [last\<lparr>Note.Body := Note.Body last @ [NL] @ line\<rparr>]\<rparr>)
                           commit1,
                         inNote2, trim2)))
            else Inr (commit1, inNote2, trim2))
           (\<lambda>(commit3, inNote3, trim3).
              Inr \<lparr> bCommit = commit3, inNote = inNote3, trim = trim3, fenceDetector = fd,
                    trimmedBody = (if \<not> trim3 then trimmedBody v @ [line] else trimmedBody v) \<rparr>))"

fun bodyLoop :: "commitParser \<Rightarrow> bodyVars \<Rightarrow> string list \<Rightarrow> err + bodyVars" where
  "bodyLoop p v [] = Inr v"
| "bodyLoop p v (line # lines) = andThen (bodyStep p v line) (\<lambda>v'. bodyLoop p v' lines)"

definition trimSpaceInNotes :: "Commit \<Rightarrow> Commit" where
  "trimSpaceInNotes c =
     upd (\<lambda>d. d\<lparr>CommitData.Notes :=
            map (\<lambda>note. note\<lparr>Note.Body := TrimSpace (Note.Body note)\<rparr>) (CommitData.Notes d)\<rparr>) c"

definition processBody :: "commitParser \<Rightarrow> Commit \<Rightarrow> string \<Rightarrow> err + Commit" where
  "processBody p commit0 input0 =
     (let input = convNewline input0 [NL];
          commit1 = upd (\<lambda>d. d\<lparr>CommitData.Body := input\<rparr>) commit0;
          opts = Options (config p);
          commit2 =
            (if MultilineCommit opts
             then subCommitsLoop p commit1 (Split (ReplaceAllString (reNotes p) input []) [NL])
             else commit1);
          commit3 = upd (\<lambda>d. d\<lparr>CommitData.Notes := []\<rparr>) commit2;
          lines = Split input [NL]
      in andThen
           (bodyLoop p \<lparr> bCommit = commit3, inNote = False, trim = False,
                         fenceDetector = newMdFenceDetector, trimmedBody = [] \<rparr> lines)
           (\<lambda>v. Inr (trimSpaceInNotes
                       (upd (\<lambda>d. d\<lparr>TrimmedBody := TrimSpace (Join (trimmedBody v) [NL])\<rparr>) (bCommit v)))))"

subsection \<open>Records and the whole log\<close>

text \<open>The loop of \<open>parseCommit\<close> over the tokens of a record.\<close>

fun tokensLoop :: "commitParser \<Rightarrow> Commit \<Rightarrow> string list \<Rightarrow> err + Commit" where
  "tokensLoop p commit [] = Inr commit"
| "tokensLoop p commit (token # tokens) =
     (let firstSep = Index token '':'' in
      andThen (slice token 0 firstSep) (\<lambda>field.
      andThen (slice token (firstSep + 1) (int (length token))) (\<lambda>rest.
      let value = TrimSpace rest in
      andThen
        (if field = hashField then
           andThen (parseHash value) (\<lambda>h. Inr (upd (\<lambda>d. d\<lparr>Hash := Some h\<rparr>) commit))
         else if field = authorField then
           andThen (parseAuthor value) (\<lambda>a. Inr (upd (\<lambda>d. d\<lparr>Author := Some a\<rparr>) commit))
         else if field = committerField then
           andThen (parseCommitter value) (\<lambda>a. Inr (upd (\<lambda>d. d\<lparr>Committer := Some a\<rparr>) commit))
         else if field = subjectField then Inr (processHeader p commit value)
         else if field = bodyField then processBody p commit value
         else Inr commit)
        (\<lambda>commit'. tokensLoop p commit' tokens))))"

definition parseCommit :: "commitParser \<Rightarrow> string \<Rightarrow> err + Commit" where
  "parseCommit p input =
     andThen (tokensLoop p zeroCommit (Split input delimiter)) (\<lambda>commit1.
     let commit2 = upd (\<lambda>d. d\<lparr>Refs := uniqRefs (Refs d)\<rparr>) commit1;
         commit3 = upd (\<lambda>d. d\<lparr>Mentions := uniqMentions (Mentions d)\<rparr>) commit2
     in case Hash (data commit3) of
          None \<Rightarrow> Inl PanicNilDeref
        | Some h \<Rightarrow>
            (case client p ''diff-tree'' [''--no-commit-id'', ''--name-only'', ''-r'', Short h] of
               Inl e \<Rightarrow> Inl (Error e)
             | Inr out \<Rightarrow>
                 Inr (if length out > 0 then upd (\<lambda>d. d\<lparr>ChangedFiles := Split out [NL]\<rparr>) commit3
                      else commit3)))"

text \<open>
  The loop of \<open>Parse\<close>. \<open>commits\<close> is the slice made with \<open>len(lines)\<close> nil entries;
  \<open>continue\<close> leaves the entry of the current index as it is.
\<close>

fun parseLoop ::
  "commitParser \<Rightarrow> (Commit \<Rightarrow> Commit option) option \<Rightarrow> Commit option list \<Rightarrow> nat \<Rightarrow> string list \<Rightarrow>
   err + Commit option list" where
  "parseLoop p processor commits i [] = Inr commits"
| "parseLoop p processor commits i (line # lines) =
     andThen (parseCommit p line) (\<lambda>commit.
     case processor of
       None \<Rightarrow> parseLoop p processor (commits[i := Some commit]) (Suc i) lines
     | Some ProcessCommit \<Rightarrow>
         (case ProcessCommit commit of
            None \<Rightarrow> parseLoop p processor commits (Suc i) lines
          | Some commit' \<Rightarrow> parseLoop p processor (commits[i := Some commit']) (Suc i) lines))"

definition Parse :: "commitParser \<Rightarrow> string \<Rightarrow> err + Commit option list" where
  "Parse p revision =
     (let paths = Paths (Options (config p));
          args = [revision, ''--no-decorate'', ''--pretty='' @ logFormat]
                   @ (if length paths > 0 then [''--''] @ paths else [])
      in case client p ''log'' args of
           Inl e \<Rightarrow> Inl (Error e)
         | Inr out \<Rightarrow>
             andThen (slice (Split out separator) 1 (int (length (Split out separator)))) (\<lambda>lines.
             parseLoop p (Processor (Options (config p))) (replicate (length lines) None) 0 lines))"

section \<open>The commit filter\<close>

text \<open>
  \<open>dotGet\<close>, the field accessor, is not in the sources; \<open>commitFilter\<close> takes it as
  the parameter \<open>dotGet\<close>: the value a path resolves to on a commit, or \<open>None\<close> when
  the path does not resolve. \<open>unicodeLower\<close> is the case mapping that
  \<open>strings.ToLower\<close> applies to a string with a byte outside ASCII. The commits come as
  \<open>[]*Commit\<close>, an entry of which may be \<open>nil\<close>; reading \<open>commit.SubCommits\<close> of a
  nil entry panics.
\<close>

fun expandLoop :: "Commit list \<Rightarrow> Commit option list \<Rightarrow> err + Commit list" where
  "expandLoop expandedCommits [] = Inr expandedCommits"
| "expandLoop expandedCommits (None # commits) = Inl PanicNilDeref"
| "expandLoop expandedCommits (Some commit # commits) =
     (let expanded1 = expandedCommits @ [commit];
          expanded2 = (if length (SubCommits commit) > 0 then expanded1 @ SubCommits commit
                       else expanded1)
      in expandLoop expanded2 commits)"

fun valuesLoop :: "(string \<Rightarrow> string) \<Rightarrow> bool \<Rightarrow> string \<Rightarrow> bool \<Rightarrow> string list \<Rightarrow> bool" where
  "valuesLoop unicodeLower noCaseSensitive str exist [] = exist"
| "valuesLoop unicodeLower noCaseSensitive str exist (val # values) =
     (let val' = (if noCaseSensitive then ToLower unicodeLower val else val)
      in valuesLoop unicodeLower noCaseSensitive str (if str = val' then True else exist) values)"

text \<open>The loop over the entries of \<open>filters\<close>; each \<open>break\<close> leaves \<open>include\<close> false.\<close>

fun filtersLoop ::
  "(Commit \<Rightarrow> string \<Rightarrow> Value option) \<Rightarrow> (string \<Rightarrow> string) \<Rightarrow> bool \<Rightarrow> Commit \<Rightarrow> bool \<Rightarrow> (string \<times> string list) list \<Rightarrow> bool" where
  "filtersLoop dotGet unicodeLower noCaseSensitive commit include [] = include"
| "filtersLoop dotGet unicodeLower noCaseSensitive commit include ((key, values) # filters) =
     (case dotGet commit key of
        None \<Rightarrow> False
      | Some prop \<Rightarrow>
          (case prop of
             StringValue str0 \<Rightarrow>
               (let str = (if noCaseSensitive then ToLower unicodeLower str0 else str0);
                    exist = valuesLoop unicodeLower noCaseSensitive str False values
                in if \<not> exist then False
                   else filtersLoop dotGet unicodeLower noCaseSensitive commit True filters)
           | _ \<Rightarrow> False))"

fun includeLoop ::
  "(Commit \<Rightarrow> string \<Rightarrow> Value option) \<Rightarrow> (string \<Rightarrow> string) \<Rightarrow> (string \<times> string list) list \<Rightarrow> bool \<Rightarrow> Commit list \<Rightarrow>
   Commit list \<Rightarrow> Commit list" where
  "includeLoop dotGet unicodeLower filters noCaseSensitive res [] = res"
| "includeLoop dotGet unicodeLower filters noCaseSensitive res (commit # expandedCommits) =
     (let include0 = (if length filters = 0 then True else False);
          include1 = filtersLoop dotGet unicodeLower noCaseSensitive commit include0 filters
      in includeLoop dotGet unicodeLower filters noCaseSensitive (if include1 then res @ [commit] else res)
           expandedCommits)"

definition commitFilter ::
  "(Commit \<Rightarrow> string \<Rightarrow> Value option) \<Rightarrow> (string \<Rightarrow> string) \<Rightarrow> Commit option list \<Rightarrow> (string \<times> string list) list \<Rightarrow> bool \<Rightarrow>
   err + Commit list" where
  "commitFilter dotGet unicodeLower commits filters noCaseSensitive =
     andThen (expandLoop [] commits) (\<lambda>expandedCommits.
     Inr (includeLoop dotGet unicodeLower filters noCaseSensitive [] expandedCommits))"

section \<open>The commit extractor\<close>

text \<open>
  What \<open>Extract\<close> calls and the sources do not hold: the field accessor on commits and
  on commit groups, \<open>compare\<close> (a result or an error message), \<open>strings.Title\<close>, the
  case mapping of \<open>strings.ToLower\<close> outside ASCII, and
  \<open>sort.Slice\<close> and \<open>sort.SliceStable\<close> at the element types they are used at. A
  \<open>less\<close> function of the sources reads the elements at two indexes of the slice being
  sorted; here it compares the two elements.
\<close>

record helpers =
  dotGetCommit :: "Commit \<Rightarrow> string \<Rightarrow> Value option"
  dotGetGroup :: "CommitGroup \<Rightarrow> string \<Rightarrow> Value option"
  compare :: "Value \<Rightarrow> string \<Rightarrow> Value \<Rightarrow> string + bool"
  stringsTitle :: "string \<Rightarrow> string"
  unicodeToLower :: "string \<Rightarrow> string"
  sortSliceGroups :: "(CommitGroup \<Rightarrow> CommitGroup \<Rightarrow> bool) \<Rightarrow> CommitGroup list \<Rightarrow> CommitGroup list"
  sortSliceStableCommits :: "(Commit \<Rightarrow> Commit \<Rightarrow> bool) \<Rightarrow> Commit list \<Rightarrow> Commit list"
  sortSliceNoteGroups :: "(NoteGroup \<Rightarrow> NoteGroup \<Rightarrow> bool) \<Rightarrow> NoteGroup list \<Rightarrow> NoteGroup list"
  sortSliceNotes :: "(Note \<Rightarrow> Note \<Rightarrow> bool) \<Rightarrow> Note list \<Rightarrow> Note list"

record commitExtractor =
  opts :: Options

definition newCommitExtractor :: "Options \<Rightarrow> commitExtractor" where
  "newCommitExtractor options = \<lparr> opts = options \<rparr>"

definition commitGroupTitle :: "helpers \<Rightarrow> commitExtractor \<Rightarrow> Commit \<Rightarrow> string \<times> string" where
  "commitGroupTitle h e commit =
     (case dotGetCommit h commit (CommitGroupBy (opts e)) of
        Some (StringValue v) \<Rightarrow>
          (v, case CommitGroupTitleMaps (opts e) v of Some t \<Rightarrow> t | None \<Rightarrow> stringsTitle h v)
      | _ \<Rightarrow> ([], []))"

text \<open>The loop that looks for the group: the index of the last group whose title matches.\<close>

fun findGroupLoop :: "(string \<Rightarrow> string) \<Rightarrow> bool \<Rightarrow> string \<Rightarrow> nat option \<Rightarrow> nat \<Rightarrow> CommitGroup list \<Rightarrow> nat option" where
  "findGroupLoop unicodeLower noCaseSensitive raw grp i [] = grp"
| "findGroupLoop unicodeLower noCaseSensitive raw grp i (g # groups) =
     (let rawTitleTmp = (if noCaseSensitive then ToLower unicodeLower (RawTitle g) else RawTitle g);
          rawTmp = (if noCaseSensitive then ToLower unicodeLower raw else raw)
      in findGroupLoop unicodeLower noCaseSensitive raw (if rawTitleTmp = rawTmp then Some i else grp) (Suc i)
           groups)"

definition processCommitGroups ::
  "helpers \<Rightarrow> commitExtractor \<Rightarrow> CommitGroup list \<Rightarrow> Commit \<Rightarrow> bool \<Rightarrow> CommitGroup list" where
  "processCommitGroups h e groups commit noCaseSensitive =
     (let (raw, ttl) = commitGroupTitle h e commit in
      case findGroupLoop (unicodeToLower h) noCaseSensitive raw None 0 groups of
        Some i \<Rightarrow>
          groups[i := (groups ! i)\<lparr>Commits := Commits (groups ! i) @ [commit]\<rparr>]
      | None \<Rightarrow>
          if raw \<noteq> [] then
            groups @ [\<lparr> RawTitle = raw, CommitGroup.Title = ttl, Commits = [commit] \<rparr>]
          else groups)"

fun noteGroupsLoop :: "Note \<Rightarrow> bool \<Rightarrow> NoteGroup list \<Rightarrow> bool \<times> NoteGroup list" where
  "noteGroupsLoop note exist [] = (exist, [])"
| "noteGroupsLoop note exist (g # groups) =
     (if NoteGroup.Title g = Note.Title note then
        (let (exist', groups') = noteGroupsLoop note True groups
         in (exist', g\<lparr>NoteGroup.Notes := NoteGroup.Notes g @ [note]\<rparr> # groups'))
      else
        (let (exist', groups') = noteGroupsLoop note exist groups
         in (exist', g # groups')))"

definition appendNoteToNoteGroups :: "NoteGroup list \<Rightarrow> Note \<Rightarrow> NoteGroup list" where
  "appendNoteToNoteGroups groups note =
     (let (exist, groups') = noteGroupsLoop note False groups in
      if \<not> exist then
        groups' @ [\<lparr> NoteGroup.Title = Note.Title note, NoteGroup.Notes = [note] \<rparr>]
      else groups')"

definition processNoteGroups :: "NoteGroup list \<Rightarrow> Commit \<Rightarrow> NoteGroup list" where
  "processNoteGroups groups commit =
     (if length (CommitData.Notes (data commit)) \<noteq> 0
      then foldl appendNoteToNoteGroups groups (CommitData.Notes (data commit))
      else groups)"

text \<open>The map \<open>order\<close>: a later occurrence of a title overwrites the index of an earlier one.\<close>

fun orderLoop :: "(string \<rightharpoonup> int) \<Rightarrow> nat \<Rightarrow> string list \<Rightarrow> (string \<rightharpoonup> int)" where
  "orderLoop orderMap i [] = orderMap"
| "orderLoop orderMap i (t # ts) = orderLoop (orderMap(t \<mapsto> int i)) (Suc i) ts"

text \<open>\<open>order[t]\<close>: reading a key that the map does not hold gives the zero value.\<close>

definition orderAt :: "(string \<rightharpoonup> int) \<Rightarrow> string \<Rightarrow> int" where
  "orderAt orderMap t = (case orderMap t of None \<Rightarrow> 0 | Some i \<Rightarrow> i)"

definition lessByPath ::
  "('a \<Rightarrow> string \<Rightarrow> Value option) \<Rightarrow> (Value \<Rightarrow> string \<Rightarrow> Value \<Rightarrow> string + bool) \<Rightarrow> string \<Rightarrow> 'a \<Rightarrow> 'a \<Rightarrow> bool" where
  "lessByPath dotGet cmp path x y =
     (case dotGet x path of
        None \<Rightarrow> False
      | Some a \<Rightarrow>
          (case dotGet y path of
             None \<Rightarrow> False
           | Some b \<Rightarrow> (case cmp a ''<'' b of Inl e \<Rightarrow> False | Inr res \<Rightarrow> res)))"

definition groupLess :: "helpers \<Rightarrow> commitExtractor \<Rightarrow> CommitGroup \<Rightarrow> CommitGroup \<Rightarrow> bool" where
  "groupLess h e gi gj =
     (let orderMap = (if CommitGroupSortBy (opts e) = ''Custom''
                   then orderLoop Map.empty 0 (CommitGroupTitleOrder (opts e)) else Map.empty)
      in if CommitGroupSortBy (opts e) = ''Custom''
         then orderAt orderMap (RawTitle gi) < orderAt orderMap (RawTitle gj)
         else lessByPath (dotGetGroup h) (compare h) (CommitGroupSortBy (opts e)) gi gj)"

definition sortCommitGroups :: "helpers \<Rightarrow> commitExtractor \<Rightarrow> CommitGroup list \<Rightarrow> CommitGroup list" where
  "sortCommitGroups h e groups =
     map (\<lambda>grp. grp\<lparr>Commits :=
            sortSliceStableCommits h (lessByPath (dotGetCommit h) (compare h) (CommitSortBy (opts e)))
              (Commits grp)\<rparr>)
       (sortSliceGroups h (groupLess h e) groups)"

definition sortNoteGroups :: "helpers \<Rightarrow> NoteGroup list \<Rightarrow> NoteGroup list" where
  "sortNoteGroups h groups =
     map (\<lambda>grp. grp\<lparr>NoteGroup.Notes :=
            sortSliceNotes h (\<lambda>ni nj. ToLower (unicodeToLower h) (Note.Title ni) < ToLower (unicodeToLower h) (Note.Title nj))
              (NoteGroup.Notes grp)\<rparr>)
       (sortSliceNoteGroups h (\<lambda>gi gj. ToLower (unicodeToLower h) (NoteGroup.Title gi)
                                < ToLower (unicodeToLower h) (NoteGroup.Title gj))
          groups)"

text \<open>The first loop of \<open>Extract\<close>; \<open>continue\<close> after a merge commit skips the revert test.\<close>

fun bucketLoop :: "Commit list \<Rightarrow> Commit list \<Rightarrow> Commit option list \<Rightarrow> err + Commit list \<times> Commit list" where
  "bucketLoop mergeCommits revertCommits [] = Inr (mergeCommits, revertCommits)"
| "bucketLoop mergeCommits revertCommits (None # commits) = Inl PanicNilDeref"
| "bucketLoop mergeCommits revertCommits (Some commit # commits) =
     (if Merge (data commit) \<noteq> None then bucketLoop (mergeCommits @ [commit]) revertCommits commits
      else if Revert (data commit) \<noteq> None then bucketLoop mergeCommits (revertCommits @ [commit]) commits
      else bucketLoop mergeCommits revertCommits commits)"

fun groupsLoop ::
  "helpers \<Rightarrow> commitExtractor \<Rightarrow> CommitGroup list \<Rightarrow> NoteGroup list \<Rightarrow> Commit list \<Rightarrow>
   CommitGroup list \<times> NoteGroup list" where
  "groupsLoop h e commitGroups noteGroups [] = (commitGroups, noteGroups)"
| "groupsLoop h e commitGroups noteGroups (commit # filteredCommits) =
     (let commitGroups' =
            (if Merge (data commit) = None \<and> Revert (data commit) = None
             then processCommitGroups h e commitGroups commit (NoCaseSensitive (opts e))
             else commitGroups)
      in groupsLoop h e commitGroups' (processNoteGroups noteGroups commit) filteredCommits)"

definition Extract ::
  "helpers \<Rightarrow> commitExtractor \<Rightarrow> Commit option list \<Rightarrow>
   err + CommitGroup list \<times> Commit list \<times> Commit list \<times> NoteGroup list" where
  "Extract h e commits =
     andThen (commitFilter (dotGetCommit h) (unicodeToLower h) commits (CommitFilters (opts e)) (NoCaseSensitive (opts e)))
       (\<lambda>filteredCommits.
     andThen (bucketLoop [] [] commits) (\<lambda>(mergeCommits, revertCommits).
     let (commitGroups, noteGroups) = groupsLoop h e [] [] filteredCommits
     in Inr (sortCommitGroups h e commitGroups, mergeCommits, revertCommits, sortNoteGroups h noteGroups)))"

section \<open>The specification's reading of the filter\<close>

text \<open>
  The inclusion test in the words of the specification: every pair of the predicate
  map is satisfied, a pair being satisfied when its path resolves on the commit to a
  string that equals one of the allowed values, both sides in lower case when case is
  to be ignored. With no pair every commit is included.
\<close>

definition includedBySpec ::
  "(Commit \<Rightarrow> string \<Rightarrow> Value option) \<Rightarrow> (string \<Rightarrow> string) \<Rightarrow> (string \<times> string list) list \<Rightarrow> bool \<Rightarrow> Commit \<Rightarrow> bool" where
  "includedBySpec dotGet unicodeLower filters noCaseSensitive commit =
     list_all
       (\<lambda>(path, allowedValues).
          case dotGet commit path of
            Some (StringValue str) \<Rightarrow>
              list_ex (\<lambda>v. (if noCaseSensitive then ToLower unicodeLower str else str)
                           = (if noCaseSensitive then ToLower unicodeLower v else v)) allowedValues
          | _ \<Rightarrow> False)
       filters"

text \<open>The expansion: every commit, immediately followed by its sub-commits.\<close>

definition expandBySpec :: "Commit list \<Rightarrow> Commit list" where
  "expandBySpec commits = concat (map (\<lambda>c. c # SubCommits c) commits)"

section \<open>The contract of the sorting routines\<close>

text \<open>
  \<open>sort.Slice\<close> is not stable and its algorithm is not part of its contract. What
  the library promises: the result is a rearrangement of the input, and it is sorted
  (no later element is less than an earlier one) when \<open>lt\<close> is a strict weak
  ordering.
\<close>

definition strictWeakOrder :: "('a \<Rightarrow> 'a \<Rightarrow> bool) \<Rightarrow> bool" where
  "strictWeakOrder lt =
     ((\<forall>x. \<not> lt x x) \<and>
      (\<forall>x y z. lt x y \<and> lt y z \<longrightarrow> lt x z) \<and>
      (\<forall>x y z. \<not> lt x y \<and> \<not> lt y x \<and> \<not> lt y z \<and> \<not> lt z y \<longrightarrow> \<not> lt x z \<and> \<not> lt z x))"

definition sortContract :: "(('a \<Rightarrow> 'a \<Rightarrow> bool) \<Rightarrow> 'a list \<Rightarrow> 'a list) \<Rightarrow> bool" where
  "sortContract srt =
     (\<forall>lt xs. mset (srt lt xs) = mset xs \<and>
        (strictWeakOrder lt \<longrightarrow> sorted_wrt (\<lambda>a b. \<not> lt b a) (srt lt xs)))"

text \<open>A sorting routine that meets the contract (stable insertion sort).\<close>

fun insertBy :: "('a \<Rightarrow> 'a \<Rightarrow> bool) \<Rightarrow> 'a \<Rightarrow> 'a list \<Rightarrow> 'a list" where
  "insertBy lt x [] = [x]"
| "insertBy lt x (y # ys) = (if lt y x then y # insertBy lt x ys else x # y # ys)"

definition insertionSort :: "('a \<Rightarrow> 'a \<Rightarrow> bool) \<Rightarrow> 'a list \<Rightarrow> 'a list" where
  "insertionSort lt xs = foldr (insertBy lt) xs []"

text \<open>
  The key the \<open>Custom\<close> mode compares: the index the map \<open>order\<close> holds for a
  title, zero for a title the map does not hold.
\<close>

definition titleKey :: "string list \<Rightarrow> string \<Rightarrow> int" where
  "titleKey titles t = orderAt (orderLoop Map.empty 0 titles) t"


text \<open>Helpers for the examples: an accessor for three one-segment paths.\<close>

definition exDotGet :: "Commit \<Rightarrow> string \<Rightarrow> Value option" where
  "exDotGet c path =
     (if path = ''Type'' then Some (StringValue (CommitData.Type (data c)))
      else if path = ''Scope'' then Some (StringValue (Scope (data c)))
      else if path = ''Subject'' then Some (StringValue (Subject (data c)))
      else None)"

definition exHelpers :: helpers where
  "exHelpers =
     \<lparr> dotGetCommit = exDotGet,
       dotGetGroup = (\<lambda>g path. if path = ''RawTitle'' then Some (StringValue (RawTitle g)) else None),
       compare = (\<lambda>a op b. case (a, b) of
                                (StringValue x, StringValue y) \<Rightarrow> Inr (x < y)
                              | _ \<Rightarrow> Inl ''type mismatch''),
       stringsTitle = (\<lambda>s. s),
       unicodeToLower = (\<lambda>s. s),
       sortSliceGroups = insertionSort,
       sortSliceStableCommits = insertionSort,
       sortSliceNoteGroups = insertionSort,
       sortSliceNotes = insertionSort \<rparr>"

definition exOptions :: Options where
  "exOptions =
     \<lparr> Paths = [], Processor = None, HeaderPatternMaps = [''Type'', ''Subject''],
       MergePatternMaps = [], RevertPatternMaps = [],
       RefActions = [''Fixes''], IssuePrefix = [''#''], NoteKeywords = [''BREAKING CHANGE''],
       MultilineCommit = True, JiraTypeMaps = Map.empty, JiraIssueDescriptionPattern = [],
       CommitFilters = [], NoCaseSensitive = False, CommitGroupBy = ''Type'',
       CommitGroupSortBy = ''Custom'', CommitGroupTitleOrder = [''fix'', ''feat''],
       CommitGroupTitleMaps = Map.empty, CommitSortBy = ''Scope'' \<rparr>"

definition exGroup :: "string \<Rightarrow> CommitGroup" where
  "exGroup t = \<lparr> RawTitle = t, CommitGroup.Title = t, Commits = [] \<rparr>"

section \<open>Examples\<close>

text \<open>The body of the scenario of the specification.\<close>

definition scenarioBody :: string where
  "scenarioBody = ''Fixes #42'' @ [NL] @ ''BREAKING CHANGE: old API removed'' @ [NL] @ ''more detail''"


text \<open>
  A configuration for the examples: the header pattern \<open>^(\w*)\:\s(.*)$\<close> bound to
  \<open>Type\<close> and \<open>Subject\<close>, merge, revert and Jira description patterns that match
  nothing, no issue tracker, and a \<open>diff-tree\<close> that reports one changed file.
\<close>

definition groupList2 :: "caps \<Rightarrow> string list" where
  "groupList2 c = [c 1, c 2]"

definition exHeader :: "string list Regexp" where
  "exHeader =
     MustCompile (seqs [Bol, Grp 1 (Star reWord), Lit '':'', Cls reSpace, Grp 2 (Star reAny), Eol])
       groupList2"

definition neverMatches :: "'g Regexp" where
  "neverMatches = \<lparr> FindAllStringSubmatch = (\<lambda>s. []), ReplaceAllString = (\<lambda>s repl. s) \<rparr>"

definition exRecord :: "string \<Rightarrow> string \<Rightarrow> string" where
  "exRecord subject body =
     ''HASH:h1'' @ [TAB] @ ''h'' @ delimiter @
     ''AUTHOR:n'' @ [TAB] @ ''e'' @ [TAB] @ ''1'' @ delimiter @
     ''COMMITTER:n'' @ [TAB] @ ''e'' @ [TAB] @ ''1'' @ delimiter @
     ''SUBJECT:'' @ subject @ delimiter @
     ''BODY:'' @ body"

definition exLog :: string where
  "exLog = separator @ exRecord ''chore: x'' [] @ [NL] @ separator @ exRecord ''feat: a'' [] @ [NL]"

definition exClient :: "string \<Rightarrow> string list \<Rightarrow> string + string" where
  "exClient cmd args = (if cmd = ''log'' then Inr exLog else Inr ''a.go'')"

definition exParser :: commitParser where
  "exParser =
     newCommitParser exClient (\<lambda>issueID. Inl ''no issue tracker'') \<lparr> Options = exOptions \<rparr>
       exHeader neverMatches neverMatches neverMatches"

text \<open>A post-processor that returns nothing for a commit of type \<open>chore\<close>.\<close>

definition dropChores :: "Commit \<Rightarrow> Commit option" where
  "dropChores c = (if CommitData.Type (data c) = ''chore'' then None else Some c)"

definition exParserDropping :: commitParser where
  "exParserDropping =
     newCommitParser exClient (\<lambda>issueID. Inl ''no issue tracker'')
       \<lparr> Options = exOptions\<lparr>Processor := Some dropChores\<rparr> \<rparr>
       exHeader neverMatches neverMatches neverMatches"

section \<open>Notions used to state the properties of body processing\<close>

text \<open>
  The lines of a body on which metadata is looked for: those after whose \<open>Update\<close>
  the detector is not in a code block.
\<close>

fun outsideFence :: "mdFenceDetector \<Rightarrow> string list \<Rightarrow> string list" where
  "outsideFence d [] = []"
| "outsideFence d (line # lines) =
     (let d' = Update d line
      in (if InCodeblock d' then [] else [line]) @ outsideFence d' lines)"

text \<open>The invariant of the loop over the lines: while a note is open there is a note.\<close>

definition noteInv :: "bodyVars \<Rightarrow> bool" where
  "noteInv v = (if inNote v then CommitData.Notes (data (bCommit v)) \<noteq> [] else True)"

text \<open>A line carries metadata when one of the four extractions finds something on it.\<close>

definition hasMetadata :: "commitParser \<Rightarrow> string \<Rightarrow> bool" where
  "hasMetadata p line =
     (parseRefs p line \<noteq> [] \<or> parseMentions p line \<noteq> [] \<or> parseCoAuthors p line \<noteq> []
        \<or> parseSigners p line \<noteq> [])"

text \<open>
  The lines of a body that the specification keeps for the trimmed body, in order. A
  line is marked for removal when it matches the note pattern, when it lies outside a
  code block and carries metadata, or when a note is open as the line is reached (the
  line continues the note, or ends it with its metadata). A line that matches the note
  pattern opens a note; metadata outside a code block closes the open one.
  \<open>noteOpen\<close> says that a note is open before the first line, \<open>d\<close> is the detector
  before it.
\<close>

fun keptLines :: "commitParser \<Rightarrow> bool \<Rightarrow> mdFenceDetector \<Rightarrow> string list \<Rightarrow> string list" where
  "keptLines p noteOpen d [] = []"
| "keptLines p noteOpen d (line # lines) =
     (let d' = Update d line;
          meta = (if InCodeblock d' then False else hasMetadata p line);
          note = (FindAllStringSubmatch (reNotes p) line \<noteq> [])
      in (if noteOpen \<or> meta \<or> note then [] else [line])
         @ keptLines p (if note then True else if meta then False else noteOpen) d' lines)"

text \<open>Whether a note is open, and the detector, after the lines.\<close>

fun stateAfter ::
  "commitParser \<Rightarrow> bool \<Rightarrow> mdFenceDetector \<Rightarrow> string list \<Rightarrow> bool \<times> mdFenceDetector" where
  "stateAfter p noteOpen d [] = (noteOpen, d)"
| "stateAfter p noteOpen d (line # lines) =
     (let d' = Update d line;
          meta = (if InCodeblock d' then False else hasMetadata p line);
          note = (FindAllStringSubmatch (reNotes p) line \<noteq> [])
      in stateAfter p (if note then True else if meta then False else noteOpen) d' lines)"

text \<open>A body whose second line lies in a fence of backticks.\<close>

definition exFencedBody :: string where
  "exFencedBody = ''```'' @ [NL] @ ''#42'' @ [NL] @ ''```''"

text \<open>
  A body that opens a note, then a fence of backticks around a line that the header
  pattern of the examples matches.
\<close>

definition exFencedNoteBody :: string where
  "exFencedNoteBody =
     ''BREAKING CHANGE: x'' @ [NL] @ ''```'' @ [NL] @ ''fix: #42 @bob'' @ [NL] @ ''```''"

section \<open>Notions used to state the properties of records\<close>

text \<open>
  The precondition on a record in the words of the specification: every token holds a
  colon, the value of a \<open>HASH\<close> token (what follows its first colon) has at least two
  tab-separated components and the value of an \<open>AUTHOR\<close> or \<open>COMMITTER\<close> token at
  least three.
\<close>

definition claimedWellFormedToken :: "string \<Rightarrow> bool" where
  "claimedWellFormedToken token =
     (let firstSep = Index token '':'' in
      if firstSep < 0 then False
      else (let field = take (nat firstSep) token;
                val = drop (nat firstSep + 1) token
            in if field = hashField then 2 \<le> length (Split val [TAB])
               else if field = authorField \<or> field = committerField
                    then 3 \<le> length (Split val [TAB])
               else True))"

definition claimedWellFormedRecord :: "string \<Rightarrow> bool" where
  "claimedWellFormedRecord input = list_all claimedWellFormedToken (Split input delimiter)"

text \<open>
  The precondition on a record as \<open>parseCommit\<close> needs it. The value of a token is
  trimmed with \<open>strings.TrimSpace\<close> before it is split on tabs, so the components that
  count are those of the trimmed value: a tab that begins or ends the value separates
  nothing.
\<close>

definition wellFormedTrimmedToken :: "string \<Rightarrow> bool" where
  "wellFormedTrimmedToken token =
     (let firstSep = Index token '':'' in
      if firstSep < 0 then False
      else (let field = take (nat firstSep) token;
                val = TrimSpace (drop (nat firstSep + 1) token)
            in if field = hashField then 2 \<le> length (Split val [TAB])
               else if field = authorField \<or> field = committerField
                    then 3 \<le> length (Split val [TAB])
               else True))"

definition wellFormedTrimmedRecord :: "string \<Rightarrow> bool" where
  "wellFormedTrimmedRecord input = list_all wellFormedTrimmedToken (Split input delimiter)"

text \<open>
  A record whose author has an empty name, as \<open>%an TAB %ae TAB %at\<close> prints it:
  the value of the \<open>AUTHOR\<close> token begins with the tab.
\<close>

definition exRecordNoName :: string where
  "exRecordNoName =
     ''HASH:h1'' @ [TAB] @ ''h'' @ delimiter @
     ''AUTHOR:'' @ [TAB] @ ''e'' @ [TAB] @ ''1'' @ delimiter @
     ''COMMITTER:n'' @ [TAB] @ ''e'' @ [TAB] @ ''1'' @ delimiter @
     ''SUBJECT:feat: a'' @ delimiter @
     ''BODY:''"

text \<open>The arguments \<open>Parse\<close> passes to \<open>log\<close>, and the records of its output.\<close>

definition logArgs :: "commitParser \<Rightarrow> string \<Rightarrow> string list" where
  "logArgs p revision =
     [revision, ''--no-decorate'', ''--pretty='' @ logFormat]
       @ (if length (Paths (Options (config p))) > 0 then [''--''] @ Paths (Options (config p)) else [])"

definition logRecords :: "string \<Rightarrow> string list" where
  "logRecords out = drop 1 (Split out separator)"

text \<open>
  The changed-files query \<open>parseCommit\<close> makes for a record, with its result: there
  is none when the tokens of the record cannot be processed or set no hash.
\<close>

definition changedFilesQuery :: "commitParser \<Rightarrow> string \<Rightarrow> (string + string) option" where
  "changedFilesQuery p input =
     (case tokensLoop p zeroCommit (Split input delimiter) of
        Inl e \<Rightarrow> None
      | Inr c \<Rightarrow>
          (case Hash (data c) of
             None \<Rightarrow> None
           | Some h \<Rightarrow> Some (client p ''diff-tree'' [''--no-commit-id'', ''--name-only'', ''-r'', Short h])))"

text \<open>A client whose \<open>diff-tree\<close> fails, and the example parser on top of it.\<close>

definition failingClient :: "string \<Rightarrow> string list \<Rightarrow> string + string" where
  "failingClient cmd args = (if cmd = ''log'' then Inr exLog else Inl ''diff-tree failed'')"

definition exParserFailing :: commitParser where
  "exParserFailing =
     newCommitParser failingClient (\<lambda>issueID. Inl ''no issue tracker'') \<lparr> Options = exOptions \<rparr>
       exHeader neverMatches neverMatches neverMatches"

text \<open>
  What the hash, author and committer tokens of \<open>exRecord\<close> set in a commit, the other
  fields being those of the zero value.
\<close>

definition exData :: CommitData where
  "exData =
     (data zeroCommit)
       \<lparr> Hash := Some \<lparr> Long = ''h1'', Short = ''h'' \<rparr>,
         Author := Some \<lparr> Author.Name = ''n'', Author.Email = ''e'', Author.Date = 1 \<rparr>,
         Committer := Some \<lparr> Committer.Name = ''n'', Committer.Email = ''e'', Committer.Date = 1 \<rparr> \<rparr>"

text \<open>Commits for the examples of the filter and the extractor.\<close>

definition exCommit :: "string \<Rightarrow> Commit list \<Rightarrow> Commit" where
  "exCommit t subs = Commit ((data zeroCommit)\<lparr>CommitData.Type := t\<rparr>) subs"

definition exMerge :: "string \<Rightarrow> Commit" where
  "exMerge t = Commit ((data zeroCommit)\<lparr>CommitData.Type := t, Merge := Some []\<rparr>) []"

definition exRevert :: "string \<Rightarrow> Commit" where
  "exRevert t = Commit ((data zeroCommit)\<lparr>CommitData.Type := t, Revert := Some []\<rparr>) []"

definition exMergeRevert :: "string \<Rightarrow> Commit" where
  "exMergeRevert t =
     Commit ((data zeroCommit)\<lparr>CommitData.Type := t, Merge := Some [], Revert := Some []\<rparr>) []"

section \<open>Properties of the commit filter\<close>

lemma andThen_Inr [simp]: "andThen (Inr x) f = f x"
  by (simp add: andThen_def)

lemma andThen_Inl [simp]: "andThen (Inl e) f = Inl e"
  by (simp add: andThen_def)

lemma expandLoop_Some:
  "expandLoop acc (map Some commits) = Inr (acc @ expandBySpec commits)"
  by (induction commits arbitrary: acc) (simp_all add: expandBySpec_def Let_def)

lemma valuesLoop_eq:
  "valuesLoop unicodeLower nc str exist values =
     (exist \<or> list_ex (\<lambda>v. str = (if nc then ToLower unicodeLower v else v)) values)"
  by (induction "values" arbitrary: exist) (auto simp: Let_def)

lemma filtersLoop_step:
  "filtersLoop dotGet unicodeLower nc commit inc ((key, vals) # filters) =
     (includedBySpec dotGet unicodeLower [(key, vals)] nc commit \<and> filtersLoop dotGet unicodeLower nc commit True filters)"
  by (cases nc)
     (auto simp: includedBySpec_def valuesLoop_eq Let_def split: option.splits Value.splits)

lemma includedBySpec_Cons:
  "includedBySpec dotGet unicodeLower (f # filters) nc commit =
     (includedBySpec dotGet unicodeLower [f] nc commit \<and> includedBySpec dotGet unicodeLower filters nc commit)"
  by (simp add: includedBySpec_def)

lemma filtersLoop_True:
  "filtersLoop dotGet unicodeLower nc commit True filters = includedBySpec dotGet unicodeLower filters nc commit"
proof (induction filters)
  case Nil
  then show ?case by (simp add: includedBySpec_def)
next
  case (Cons f filters)
  obtain key vals where f: "f = (key, vals)" by (cases f)
  show ?case
    unfolding f filtersLoop_step Cons.IH
    by (rule includedBySpec_Cons [symmetric])
qed

lemma filtersLoop_eq:
  "filtersLoop dotGet unicodeLower nc commit (if length filters = 0 then True else False) filters =
     includedBySpec dotGet unicodeLower filters nc commit"
proof (cases filters)
  case Nil
  then show ?thesis by (simp add: includedBySpec_def)
next
  case (Cons f fs)
  obtain key vals where f: "f = (key, vals)" by (cases f)
  show ?thesis
    unfolding Cons f filtersLoop_step filtersLoop_True
    by (rule includedBySpec_Cons [symmetric])
qed

lemma includeLoop_eq:
  "includeLoop dotGet unicodeLower filters nc res xs = res @ filter (includedBySpec dotGet unicodeLower filters nc) xs"
proof (induction xs arbitrary: res)
  case Nil
  then show ?case by simp
next
  case (Cons x xs)
  show ?case
    unfolding includeLoop.simps Let_def filtersLoop_eq by (simp add: Cons.IH)
qed

lemma commitFilter_eq:
  "commitFilter dotGet unicodeLower (map Some commits) filters noCaseSensitive =
     Inr (filter (includedBySpec dotGet unicodeLower filters noCaseSensitive) (expandBySpec commits))"
  by (simp add: commitFilter_def expandLoop_Some includeLoop_eq)

text \<open>
  Claim C3. On every sequence of commits, \<open>commitFilter\<close> returns the expansion of the
  sequence (each commit immediately followed by its sub-commits, one level, in order)
  restricted to the commits that pass the inclusion test of the specification: all
  pairs of the predicate map hold (every commit passes an empty map), a pair holding
  when the path resolves to a string equal, after the optional case normalisation of
  both sides, to one of the allowed values. The result is a sublist of the expansion,
  so the surviving commits keep their relative order. This holds for every order in
  which the pairs of the map are visited.
\<close>

theorem commitFilter_expands_and_filters:
  "commitFilter dotGet unicodeLower (map Some commits) filters noCaseSensitive =
     Inr (filter (includedBySpec dotGet unicodeLower filters noCaseSensitive)
            (concat (map (\<lambda>c. c # SubCommits c) commits)))"
  using commitFilter_eq [of dotGet unicodeLower commits filters noCaseSensitive]
  by (simp add: expandBySpec_def)

theorem commitFilter_expands_and_filters_witness:
  "commitFilter exDotGet (\<lambda>s. s)
     (map Some [exCommit ''feat'' [exCommit ''fix'' [exCommit ''fix'' []]], exCommit ''FIX'' [],
                exCommit ''docs'' []])
     [(''Type'', [''fix'', ''docs''])] True
   = Inr [exCommit ''fix'' [exCommit ''fix'' []], exCommit ''FIX'' [], exCommit ''docs'' []]"
  using commitFilter_expands_and_filters
    [of exDotGet "\<lambda>s. s" "[exCommit ''feat'' [exCommit ''fix'' [exCommit ''fix'' []]], exCommit ''FIX'' [],
                   exCommit ''docs'' []]" "[(''Type'', [''fix'', ''docs''])]" True]
  by (simp add: includedBySpec_def exDotGet_def exCommit_def ToLower_def isASCII_def lowerChar_def)

section \<open>Properties of the commit extractor\<close>

lemma bucketLoop_Some:
  "bucketLoop mcs rcs (map Some commits) =
     Inr (mcs @ filter (\<lambda>c. Merge (data c) \<noteq> None) commits,
          rcs @ filter (\<lambda>c. Merge (data c) = None \<and> Revert (data c) \<noteq> None) commits)"
  by (induction commits arbitrary: mcs rcs) auto

text \<open>
  Claim C7. \<open>Extract\<close> returns, as its merge list, the commits of the input with a
  \<open>Merge\<close>, and as its revert list the commits with a \<open>Revert\<close> and no \<open>Merge\<close>, both
  in input order. The lists are taken from the input as it is given (not expanded)
  and do not depend on the filter: the equation holds for every filter map, also one
  that excludes every commit.
\<close>

theorem Extract_buckets_merge_revert:
  "\<exists>commitGroups noteGroups.
     Extract h e (map Some commits) =
       Inr (commitGroups,
            filter (\<lambda>c. Merge (data c) \<noteq> None) commits,
            filter (\<lambda>c. Merge (data c) = None \<and> Revert (data c) \<noteq> None) commits,
            noteGroups)"
  by (simp add: Extract_def commitFilter_eq bucketLoop_Some Let_def split: prod.splits)

theorem Extract_buckets_merge_revert_witness:
  "\<exists>commitGroups noteGroups.
     Extract exHelpers (newCommitExtractor (exOptions\<lparr>CommitFilters := [(''Type'', [''none''])]\<rparr>))
       (map Some [exRevert ''a'', exCommit ''b'' [exMerge ''c''], exMergeRevert ''d'', exMerge ''e''])
     = Inr (commitGroups, [exMergeRevert ''d'', exMerge ''e''], [exRevert ''a''], noteGroups)"
  using Extract_buckets_merge_revert
    [of exHelpers "newCommitExtractor (exOptions\<lparr>CommitFilters := [(''Type'', [''none''])]\<rparr>)"
        "[exRevert ''a'', exCommit ''b'' [exMerge ''c''], exMergeRevert ''d'', exMerge ''e'']"]
  by (simp add: exRevert_def exCommit_def exMerge_def exMergeRevert_def zeroCommit_def)

section \<open>Properties of the group sort\<close>

lemma mset_insertBy: "mset (insertBy lt x ys) = add_mset x (mset ys)"
  by (induction ys) auto

lemma set_insertBy: "set (insertBy lt x ys) = insert x (set ys)"
  by (induction ys) auto

lemma sorted_insertBy:
  assumes "strictWeakOrder lt" "sorted_wrt (\<lambda>a b. \<not> lt b a) ys"
  shows "sorted_wrt (\<lambda>a b. \<not> lt b a) (insertBy lt x ys)"
  using assms(2)
proof (induction ys)
  case Nil
  then show ?case by simp
next
  case (Cons y ys)
  have irr: "\<And>a. \<not> lt a a" and tr: "\<And>a b c. lt a b \<Longrightarrow> lt b c \<Longrightarrow> lt a c"
    and inc: "\<And>a b c. \<not> lt a b \<Longrightarrow> \<not> lt b a \<Longrightarrow> \<not> lt b c \<Longrightarrow> \<not> lt c b \<Longrightarrow> \<not> lt a c \<and> \<not> lt c a"
    using assms(1) unfolding strictWeakOrder_def by blast+
  show ?case
  proof (cases "lt y x")
    case True
    have "\<not> lt x y" using True irr tr by blast
    moreover have "\<forall>z\<in>set ys. \<not> lt z y" using Cons.prems by simp
    ultimately show ?thesis using True Cons by (auto simp: set_insertBy)
  next
    case False
    have "\<forall>z\<in>set ys. \<not> lt z x"
    proof
      fix z assume z: "z \<in> set ys"
      then have nzy: "\<not> lt z y" using Cons.prems by simp
      show "\<not> lt z x"
      proof
        assume zx: "lt z x"
        show False
        proof (cases "lt x y")
          case True
          then show ?thesis using zx tr nzy by blast
        next
          case nxy: False
          show ?thesis
          proof (cases "lt y z")
            case True
            then show ?thesis using zx tr False by blast
          next
            case nyz: False
            show ?thesis using inc [of x y z] False nxy nyz nzy zx by blast
          qed
        qed
      qed
    qed
    then show ?thesis using False Cons.prems by auto
  qed
qed

lemma insertionSort_contract: "sortContract insertionSort"
proof -
  have m: "mset (insertionSort lt xs) = mset xs" for lt :: "'a \<Rightarrow> 'a \<Rightarrow> bool" and xs
    by (induction xs) (simp_all add: insertionSort_def mset_insertBy)
  have s: "strictWeakOrder lt \<Longrightarrow> sorted_wrt (\<lambda>a b. \<not> lt b a) (insertionSort lt xs)"
    for lt :: "'a \<Rightarrow> 'a \<Rightarrow> bool" and xs
  proof (induction xs)
    case Nil
    then show ?case by (simp add: insertionSort_def)
  next
    case (Cons x xs)
    then show ?case using sorted_insertBy [of lt "insertionSort lt xs" x]
      by (simp add: insertionSort_def)
  qed
  show ?thesis unfolding sortContract_def using m s by blast
qed

lemma orderLoop_absent: "t \<notin> set ts \<Longrightarrow> orderLoop m i ts t = m t"
  by (induction ts arbitrary: m i) auto

lemma orderLoop_last:
  "k < length ts \<Longrightarrow> (\<forall>j. k < j \<and> j < length ts \<longrightarrow> ts ! j \<noteq> ts ! k) \<Longrightarrow>
   orderLoop m i ts (ts ! k) = Some (int (i + k))"
proof (induction ts arbitrary: m i k)
  case Nil
  then show ?case by simp
next
  case (Cons t ts)
  show ?case
  proof (cases k)
    case 0
    have "t \<notin> set ts"
    proof
      assume "t \<in> set ts"
      then obtain j where "j < length ts" "ts ! j = t" by (auto simp: in_set_conv_nth)
      then show False using Cons.prems(2) 0 by (auto dest: spec [of _ "Suc j"])
    qed
    then show ?thesis using 0 by (simp add: orderLoop_absent)
  next
    case (Suc k')
    have "k' < length ts" using Cons.prems(1) Suc by simp
    moreover have "\<forall>j. k' < j \<and> j < length ts \<longrightarrow> ts ! j \<noteq> ts ! k'"
    proof (intro allI impI)
      fix j assume "k' < j \<and> j < length ts"
      then show "ts ! j \<noteq> ts ! k'" using Cons.prems(2) Suc by (auto dest: spec [of _ "Suc j"])
    qed
    ultimately have "orderLoop (m(t \<mapsto> int i)) (Suc i) ts (ts ! k') = Some (int (Suc i + k'))"
      by (rule Cons.IH)
    then show ?thesis using Suc by simp
  qed
qed

lemma titleKey_absent: "t \<notin> set titles \<Longrightarrow> titleKey titles t = 0"
  by (simp add: titleKey_def orderAt_def orderLoop_absent)

lemma titleKey_last:
  "k < length titles \<Longrightarrow> (\<forall>j. k < j \<and> j < length titles \<longrightarrow> titles ! j \<noteq> titles ! k) \<Longrightarrow>
   titleKey titles (titles ! k) = int k"
  using orderLoop_last [of k titles Map.empty 0] by (simp add: titleKey_def orderAt_def)

lemma groupLess_Custom:
  "CommitGroupSortBy (opts e) = ''Custom'' \<Longrightarrow>
   groupLess h e a b =
     (titleKey (CommitGroupTitleOrder (opts e)) (RawTitle a)
        < titleKey (CommitGroupTitleOrder (opts e)) (RawTitle b))"
  by (simp add: groupLess_def titleKey_def Let_def)

lemma strictWeakOrder_key: "strictWeakOrder (\<lambda>a b. (key a :: int) < key b)"
  unfolding strictWeakOrder_def by auto

lemma sortCommitGroups_titles:
  "map RawTitle (sortCommitGroups h e groups) = map RawTitle (sortSliceGroups h (groupLess h e) groups)"
  by (simp add: sortCommitGroups_def comp_def)

lemma sortCommitGroups_sorted:
  assumes "sortContract (sortSliceGroups h)" "CommitGroupSortBy (opts e) = ''Custom''"
  shows "sorted_wrt (\<lambda>a b. titleKey (CommitGroupTitleOrder (opts e)) a \<le> titleKey (CommitGroupTitleOrder (opts e)) b)
           (map RawTitle (sortCommitGroups h e groups))"
proof -
  let ?key = "\<lambda>g. titleKey (CommitGroupTitleOrder (opts e)) (RawTitle g)"
  have eq: "groupLess h e = (\<lambda>a b. ?key a < ?key b)"
    using groupLess_Custom [OF assms(2)] by (intro ext) simp
  have "sorted_wrt (\<lambda>a b. \<not> groupLess h e b a) (sortSliceGroups h (groupLess h e) groups)"
    using assms(1) strictWeakOrder_key [of ?key] unfolding sortContract_def eq by blast
  then have "sorted_wrt (\<lambda>a b. ?key a \<le> ?key b) (sortSliceGroups h (groupLess h e) groups)"
    unfolding eq by (simp add: not_less)
  then show ?thesis
    unfolding sortCommitGroups_titles by (simp add: sorted_wrt_map)
qed

lemma sortCommitGroups_mset:
  assumes "sortContract (sortSliceGroups h)"
  shows "mset (map RawTitle (sortCommitGroups h e groups)) = mset (map RawTitle groups)"
proof -
  have "mset (sortSliceGroups h (groupLess h e) groups) = mset groups"
    using assms unfolding sortContract_def by blast
  then show ?thesis unfolding sortCommitGroups_titles by (metis mset_map)
qed

lemma two_titles:
  assumes "mset ts = mset [''feat'', ''fix'']"
    and "sorted_wrt (\<lambda>a b. titleKey [''fix'', ''feat''] a \<le> titleKey [''fix'', ''feat''] b) ts"
  shows "ts = [''fix'', ''feat'']"
proof -
  have k1: "titleKey [''fix'', ''feat''] ''feat'' = 1"
    by (simp add: titleKey_def orderAt_def)
  have k0: "titleKey [''fix'', ''feat''] ''fix'' = 0"
    by (simp add: titleKey_def orderAt_def)
  have "length ts = 2" using assms(1) by (metis length_Cons list.size(3) mset_eq_length numeral_2_eq_2)
  then obtain a b where ts: "ts = [a, b]"
    by (metis (no_types, opaque_lifting) One_nat_def Suc_length_conv length_0_conv numeral_2_eq_2)
  have "(a = ''feat'' \<and> b = ''fix'') \<or> (a = ''fix'' \<and> b = ''feat'')"
    using assms(1) unfolding ts by (auto simp: add_eq_conv_ex)
  then show ?thesis using assms(2) k0 k1 unfolding ts by auto
qed

text \<open>
  Claim C8. In the \<open>Custom\<close> mode, with \<open>sort.Slice\<close> keeping its contract, the
  sorted commit groups are the given groups rearranged, in ascending order of the key
  of their \<open>RawTitle\<close>. The key of a title that is not in the title-order list is
  0; the key of a title in the list is its index (that of its last occurrence, when it
  occurs more than once). In particular groups titled \<open>feat\<close> and \<open>fix\<close>, in
  either order, come out as \<open>fix\<close>, \<open>feat\<close> under the list \<open>[fix, feat]\<close>.
\<close>

theorem sortCommitGroups_Custom:
  assumes "sortContract (sortSliceGroups h)" and "CommitGroupSortBy (opts e) = ''Custom''"
  shows "sorted_wrt (\<lambda>a b. titleKey (CommitGroupTitleOrder (opts e)) a \<le> titleKey (CommitGroupTitleOrder (opts e)) b)
           (map RawTitle (sortCommitGroups h e groups))
       \<and> mset (map RawTitle (sortCommitGroups h e groups)) = mset (map RawTitle groups)
       \<and> (\<forall>t. t \<notin> set (CommitGroupTitleOrder (opts e)) \<longrightarrow> titleKey (CommitGroupTitleOrder (opts e)) t = 0)
       \<and> (\<forall>k. k < length (CommitGroupTitleOrder (opts e)) \<and>
               (\<forall>j. k < j \<and> j < length (CommitGroupTitleOrder (opts e)) \<longrightarrow>
                    CommitGroupTitleOrder (opts e) ! j \<noteq> CommitGroupTitleOrder (opts e) ! k) \<longrightarrow>
               titleKey (CommitGroupTitleOrder (opts e)) (CommitGroupTitleOrder (opts e) ! k) = int k)
       \<and> (CommitGroupTitleOrder (opts e) = [''fix'', ''feat''] \<and>
          mset (map RawTitle groups) = mset [''feat'', ''fix''] \<longrightarrow>
          map RawTitle (sortCommitGroups h e groups) = [''fix'', ''feat''])"
proof (intro conjI allI impI)
  show "sorted_wrt (\<lambda>a b. titleKey (CommitGroupTitleOrder (opts e)) a \<le> titleKey (CommitGroupTitleOrder (opts e)) b)
           (map RawTitle (sortCommitGroups h e groups))"
    by (rule sortCommitGroups_sorted [OF assms])
  show "mset (map RawTitle (sortCommitGroups h e groups)) = mset (map RawTitle groups)"
    by (rule sortCommitGroups_mset [OF assms(1)])
next
  fix t assume "t \<notin> set (CommitGroupTitleOrder (opts e))"
  then show "titleKey (CommitGroupTitleOrder (opts e)) t = 0" by (rule titleKey_absent)
next
  fix k
  assume "k < length (CommitGroupTitleOrder (opts e)) \<and>
               (\<forall>j. k < j \<and> j < length (CommitGroupTitleOrder (opts e)) \<longrightarrow>
                    CommitGroupTitleOrder (opts e) ! j \<noteq> CommitGroupTitleOrder (opts e) ! k)"
  then show "titleKey (CommitGroupTitleOrder (opts e)) (CommitGroupTitleOrder (opts e) ! k) = int k"
    using titleKey_last by blast
next
  assume a: "CommitGroupTitleOrder (opts e) = [''fix'', ''feat''] \<and>
          mset (map RawTitle groups) = mset [''feat'', ''fix'']"
  show "map RawTitle (sortCommitGroups h e groups) = [''fix'', ''feat'']"
    using two_titles [of "map RawTitle (sortCommitGroups h e groups)"]
      sortCommitGroups_sorted [OF assms, of groups] sortCommitGroups_mset [OF assms(1), of e groups] a
    by simp
qed

theorem sortCommitGroups_Custom_witness:
  "sortContract (sortSliceGroups exHelpers) \<and>
   CommitGroupSortBy (opts (newCommitExtractor exOptions)) = ''Custom'' \<and>
   map RawTitle (sortCommitGroups exHelpers (newCommitExtractor exOptions) [exGroup ''feat'', exGroup ''fix''])
     = [''fix'', ''feat'']"
proof -
  have c: "sortContract (sortSliceGroups exHelpers)"
    by (simp add: exHelpers_def insertionSort_contract)
  have m: "CommitGroupSortBy (opts (newCommitExtractor exOptions)) = ''Custom''"
    by (simp add: newCommitExtractor_def exOptions_def)
  show ?thesis
    using sortCommitGroups_Custom [OF c m, of "[exGroup ''feat'', exGroup ''fix'']"] c m
    by (simp add: newCommitExtractor_def exOptions_def exGroup_def)
qed

section \<open>Properties of body processing\<close>

lemma data_upd [simp]: "data (upd f c) = f (data c)"
  by (simp add: upd_def)

lemma SubCommits_upd [simp]: "SubCommits (upd f c) = SubCommits c"
  by (simp add: upd_def)

lemma data_subCommitsLoop [simp]: "data (subCommitsLoop p c inputs) = data c"
  by (induction inputs arbitrary: c) (simp_all split: list.splits)

lemma scenario_lines:
  "convNewline scenarioBody [NL] = scenarioBody"
  "Split scenarioBody [NL] = [''Fixes #42'', ''BREAKING CHANGE: old API removed'', ''more detail'']"
  by code_simp+

lemma scenario_fences:
  "Update newMdFenceDetector ''Fixes #42'' = newMdFenceDetector"
  "Update newMdFenceDetector ''BREAKING CHANGE: old API removed'' = newMdFenceDetector"
  "Update newMdFenceDetector ''more detail'' = newMdFenceDetector"
  "InCodeblock newMdFenceDetector = False"
  by code_simp+

lemma scenario_reRef:
  "FindAllStringSubmatch (MustCompile (rxRef [''Fixes''] [''#'']) groups3) ''Fixes #42''
     = [(''Fixes #42'', ''Fixes'', [], ''42'')]"
  "FindAllStringSubmatch (MustCompile (rxRef [''Fixes''] [''#'']) groups3)
     ''BREAKING CHANGE: old API removed'' = []"
  "FindAllStringSubmatch (MustCompile (rxRef [''Fixes''] [''#'']) groups3) ''more detail'' = []"
  by code_simp+

lemma scenario_reIssue:
  "FindAllStringSubmatch (MustCompile (rxIssue [''#'']) groups1) ''Fixes #42'' = [(''#42'', ''42'')]"
  "FindAllStringSubmatch (MustCompile (rxIssue [''#'']) groups1) ''BREAKING CHANGE: old API removed'' = []"
  "FindAllStringSubmatch (MustCompile (rxIssue [''#'']) groups1) ''more detail'' = []"
  by code_simp+

lemma scenario_reNotes:
  "FindAllStringSubmatch (MustCompile (rxNotes [''BREAKING CHANGE'']) groups2) ''Fixes #42'' = []"
  "FindAllStringSubmatch (MustCompile (rxNotes [''BREAKING CHANGE'']) groups2)
     ''BREAKING CHANGE: old API removed''
     = [(''BREAKING CHANGE: old API removed'', ''BREAKING CHANGE'', ''old API removed'')]"
  "FindAllStringSubmatch (MustCompile (rxNotes [''BREAKING CHANGE'']) groups2) ''more detail'' = []"
  by code_simp+

lemma scenario_reMention:
  "FindAllStringSubmatch (MustCompile rxMention groups1) ''Fixes #42'' = []"
  "FindAllStringSubmatch (MustCompile rxMention groups1) ''BREAKING CHANGE: old API removed'' = []"
  "FindAllStringSubmatch (MustCompile rxMention groups1) ''more detail'' = []"
  by code_simp+

lemma scenario_reSignOff:
  "FindAllStringSubmatch (MustCompile (rxTrailer ''Signed-off-by:'') groups2) ''Fixes #42'' = []"
  "FindAllStringSubmatch (MustCompile (rxTrailer ''Signed-off-by:'') groups2)
     ''BREAKING CHANGE: old API removed'' = []"
  "FindAllStringSubmatch (MustCompile (rxTrailer ''Signed-off-by:'') groups2) ''more detail'' = []"
  by code_simp+

lemma scenario_reCoAuthor:
  "FindAllStringSubmatch (MustCompile (rxTrailer ''Co-authored-by:'') groups2) ''Fixes #42'' = []"
  "FindAllStringSubmatch (MustCompile (rxTrailer ''Co-authored-by:'') groups2)
     ''BREAKING CHANGE: old API removed'' = []"
  "FindAllStringSubmatch (MustCompile (rxTrailer ''Co-authored-by:'') groups2) ''more detail'' = []"
  by code_simp+

lemma scenario_trim:
  "TrimSpace (Join [] [NL]) = []"
  "TrimSpace (''old API removed'' @ [NL] @ ''more detail'') = ''old API removed'' @ [NL] @ ''more detail''"
  by code_simp+

text \<open>
  Claim C6. With \<open>Fixes\<close> the reference action, \<open>#\<close> the issue prefix and
  \<open>BREAKING CHANGE\<close> the note keyword, processing the body
  \<open>Fixes #42\<close>, \<open>BREAKING CHANGE: old API removed\<close>, \<open>more detail\<close> (three lines)
  returns, adds exactly one reference (action \<open>Fixes\<close>, value \<open>42\<close>) to the
  references of the commit, leaves exactly one note, titled \<open>BREAKING CHANGE\<close> with
  the two-line body \<open>old API removed\<close>, \<open>more detail\<close>, and an empty trimmed body.
  This holds for every commit, every configured pattern, every client and whether or
  not multi-line splitting is on.
\<close>

theorem processBody_scenario:
  assumes "RefActions (Options cfg) = [''Fixes'']"
    and "IssuePrefix (Options cfg) = [''#'']"
    and "NoteKeywords (Options cfg) = [''BREAKING CHANGE'']"
  shows "\<exists>c'. processBody (newCommitParser cl jira cfg hdr mrg rvt jdesc) c
                 (''Fixes #42'' @ [NL] @ ''BREAKING CHANGE: old API removed'' @ [NL] @ ''more detail'') = Inr c'
            \<and> Refs (data c') = Refs (data c) @ [\<lparr> Action = ''Fixes'', Source = [], Ref = ''42'' \<rparr>]
            \<and> CommitData.Notes (data c') =
                [\<lparr> Note.Title = ''BREAKING CHANGE'',
                   Note.Body = ''old API removed'' @ [NL] @ ''more detail'' \<rparr>]
            \<and> TrimmedBody (data c') = []"
proof -
  define p where "p = newCommitParser cl jira cfg hdr mrg rvt jdesc"
  have re:
    "reRef p = MustCompile (rxRef [''Fixes''] [''#'']) groups3"
    "reIssue p = MustCompile (rxIssue [''#'']) groups1"
    "reNotes p = MustCompile (rxNotes [''BREAKING CHANGE'']) groups2"
    "reMention p = MustCompile rxMention groups1"
    "reSignOff p = MustCompile (rxTrailer ''Signed-off-by:'') groups2"
    "reCoAuthor p = MustCompile (rxTrailer ''Co-authored-by:'') groups2"
    by (simp_all add: p_def newCommitParser_def Let_def assms)
  have m1: "extractLineMetadata p x ''Fixes #42'' =
              (True, upd (\<lambda>d. d\<lparr>Refs := Refs d @ [\<lparr> Action = ''Fixes'', Source = [], Ref = ''42'' \<rparr>]\<rparr>) x)" for x
    by (simp add: extractLineMetadata_def parseRefs_def parseMentions_def parseCoAuthors_def
        parseSigners_def re scenario_reRef scenario_reIssue scenario_reMention scenario_reSignOff
        scenario_reCoAuthor Let_def)
  have m2: "extractLineMetadata p x ''BREAKING CHANGE: old API removed'' = (False, x)" for x
    by (simp add: extractLineMetadata_def parseRefs_def parseMentions_def parseCoAuthors_def
        parseSigners_def re scenario_reRef scenario_reIssue scenario_reMention scenario_reSignOff
        scenario_reCoAuthor Let_def)
  have m3: "extractLineMetadata p x ''more detail'' = (False, x)" for x
    by (simp add: extractLineMetadata_def parseRefs_def parseMentions_def parseCoAuthors_def
        parseSigners_def re scenario_reRef scenario_reIssue scenario_reMention scenario_reSignOff
        scenario_reCoAuthor Let_def)
  have body: "''Fixes #42'' @ [NL] @ ''BREAKING CHANGE: old API removed'' @ [NL] @ ''more detail'' = scenarioBody"
    by (simp add: scenarioBody_def)
  show ?thesis
    unfolding p_def [symmetric] body
    by (simp add: processBody_def scenario_lines bodyStep_def m1 m2 m3 re scenario_reNotes
        scenario_fences scenario_trim [simplified] trimSpaceInNotes_def Let_def)
qed

theorem processBody_scenario_witness:
  "RefActions (Options \<lparr> Options = exOptions \<rparr>) = [''Fixes''] \<and>
   IssuePrefix (Options \<lparr> Options = exOptions \<rparr>) = [''#''] \<and>
   NoteKeywords (Options \<lparr> Options = exOptions \<rparr>) = [''BREAKING CHANGE''] \<and>
   map_sum id (\<lambda>c. (Refs (data c), CommitData.Notes (data c), TrimmedBody (data c)))
     (processBody exParser zeroCommit
        (''Fixes #42'' @ [NL] @ ''BREAKING CHANGE: old API removed'' @ [NL] @ ''more detail''))
   = Inr ([\<lparr> Action = ''Fixes'', Source = [], Ref = ''42'' \<rparr>],
          [\<lparr> Note.Title = ''BREAKING CHANGE'',
             Note.Body = ''old API removed'' @ [NL] @ ''more detail'' \<rparr>],
          [])"
proof -
  have a: "RefActions (Options \<lparr> Options = exOptions \<rparr>) = [''Fixes'']"
    and b: "IssuePrefix (Options \<lparr> Options = exOptions \<rparr>) = [''#'']"
    and c: "NoteKeywords (Options \<lparr> Options = exOptions \<rparr>) = [''BREAKING CHANGE'']"
    by (simp_all add: exOptions_def)
  show ?thesis
    using processBody_scenario [OF a b c, of exClient "\<lambda>issueID. Inl ''no issue tracker''"
        exHeader neverMatches neverMatches neverMatches zeroCommit] a b c
    by (auto simp: exParser_def zeroCommit_def)
qed

lemma extractLineMetadata_eq:
  "extractLineMetadata p c line =
     (parseRefs p line \<noteq> [] \<or> parseMentions p line \<noteq> [] \<or> parseCoAuthors p line \<noteq> []
        \<or> parseSigners p line \<noteq> [],
      upd (\<lambda>d. d\<lparr> Refs := Refs d @ parseRefs p line,
                  Mentions := Mentions d @ parseMentions p line,
                  CoAuthors := CoAuthors d @ parseCoAuthors p line,
                  Signers := Signers d @ parseSigners p line \<rparr>) c)"
  by (cases c) (simp add: extractLineMetadata_def upd_def Let_def)

lemma bodyStep_Inr:
  assumes "noteInv v"
  shows "\<exists>v'. bodyStep p v line = Inr v' \<and> noteInv v'
           \<and> fenceDetector v' = Update (fenceDetector v) line
           \<and> Refs (data (bCommit v')) = Refs (data (bCommit v)) @
                (if InCodeblock (Update (fenceDetector v) line) then [] else parseRefs p line)
           \<and> Mentions (data (bCommit v')) = Mentions (data (bCommit v)) @
                (if InCodeblock (Update (fenceDetector v) line) then [] else parseMentions p line)
           \<and> CoAuthors (data (bCommit v')) = CoAuthors (data (bCommit v)) @
                (if InCodeblock (Update (fenceDetector v) line) then [] else parseCoAuthors p line)
           \<and> Signers (data (bCommit v')) = Signers (data (bCommit v)) @
                (if InCodeblock (Update (fenceDetector v) line) then [] else parseSigners p line)
           \<and> SubCommits (bCommit v') = SubCommits (bCommit v)
           \<and> prefix (trimmedBody v) (trimmedBody v')"
  using assms
  by (cases "CommitData.Notes (data (bCommit v))")
     (auto simp: bodyStep_def extractLineMetadata_eq noteInv_def Let_def split: list.splits)

lemma bodyLoop_Inr:
  assumes "noteInv v"
  shows "\<exists>v'. bodyLoop p v lines = Inr v'
           \<and> Refs (data (bCommit v')) = Refs (data (bCommit v)) @
                concat (map (parseRefs p) (outsideFence (fenceDetector v) lines))
           \<and> Mentions (data (bCommit v')) = Mentions (data (bCommit v)) @
                concat (map (parseMentions p) (outsideFence (fenceDetector v) lines))
           \<and> CoAuthors (data (bCommit v')) = CoAuthors (data (bCommit v)) @
                concat (map (parseCoAuthors p) (outsideFence (fenceDetector v) lines))
           \<and> Signers (data (bCommit v')) = Signers (data (bCommit v)) @
                concat (map (parseSigners p) (outsideFence (fenceDetector v) lines))
           \<and> SubCommits (bCommit v') = SubCommits (bCommit v)
           \<and> prefix (trimmedBody v) (trimmedBody v')"
  using assms
proof (induction lines arbitrary: v)
  case Nil
  then show ?case by simp
next
  case (Cons line lines)
  obtain v1 where v1: "bodyStep p v line = Inr v1" "noteInv v1"
      "fenceDetector v1 = Update (fenceDetector v) line"
      "Refs (data (bCommit v1)) = Refs (data (bCommit v)) @
         (if InCodeblock (Update (fenceDetector v) line) then [] else parseRefs p line)"
      "Mentions (data (bCommit v1)) = Mentions (data (bCommit v)) @
         (if InCodeblock (Update (fenceDetector v) line) then [] else parseMentions p line)"
      "CoAuthors (data (bCommit v1)) = CoAuthors (data (bCommit v)) @
         (if InCodeblock (Update (fenceDetector v) line) then [] else parseCoAuthors p line)"
      "Signers (data (bCommit v1)) = Signers (data (bCommit v)) @
         (if InCodeblock (Update (fenceDetector v) line) then [] else parseSigners p line)"
      "SubCommits (bCommit v1) = SubCommits (bCommit v)"
      "prefix (trimmedBody v) (trimmedBody v1)"
    using bodyStep_Inr [OF Cons.prems, of p line] by blast
  obtain v2 where v2: "bodyLoop p v1 lines = Inr v2"
      "Refs (data (bCommit v2)) = Refs (data (bCommit v1)) @
         concat (map (parseRefs p) (outsideFence (fenceDetector v1) lines))"
      "Mentions (data (bCommit v2)) = Mentions (data (bCommit v1)) @
         concat (map (parseMentions p) (outsideFence (fenceDetector v1) lines))"
      "CoAuthors (data (bCommit v2)) = CoAuthors (data (bCommit v1)) @
         concat (map (parseCoAuthors p) (outsideFence (fenceDetector v1) lines))"
      "Signers (data (bCommit v2)) = Signers (data (bCommit v1)) @
         concat (map (parseSigners p) (outsideFence (fenceDetector v1) lines))"
      "SubCommits (bCommit v2) = SubCommits (bCommit v1)"
      "prefix (trimmedBody v1) (trimmedBody v2)"
    using Cons.IH [OF v1(2)] by blast
  have "bodyLoop p v (line # lines) = Inr v2" by (simp add: v1(1) v2(1))
  moreover have "prefix (trimmedBody v) (trimmedBody v2)"
    using v1(9) v2(7) by (rule prefix_order.trans)
  ultimately show ?case
    using v1 v2 by (simp add: Let_def)
qed

lemma processBody_Inr:
  "\<exists>c'. processBody p c input = Inr c'
     \<and> Refs (data c') = Refs (data c) @
          concat (map (parseRefs p) (outsideFence newMdFenceDetector (Split (convNewline input [NL]) [NL])))
     \<and> Mentions (data c') = Mentions (data c) @
          concat (map (parseMentions p) (outsideFence newMdFenceDetector (Split (convNewline input [NL]) [NL])))
     \<and> CoAuthors (data c') = CoAuthors (data c) @
          concat (map (parseCoAuthors p) (outsideFence newMdFenceDetector (Split (convNewline input [NL]) [NL])))
     \<and> Signers (data c') = Signers (data c) @
          concat (map (parseSigners p) (outsideFence newMdFenceDetector (Split (convNewline input [NL]) [NL])))"
proof -
  define c3 where "c3 = upd (\<lambda>d. d\<lparr>CommitData.Notes := []\<rparr>)
     (if MultilineCommit (Options (config p))
      then subCommitsLoop p (upd (\<lambda>d. d\<lparr>CommitData.Body := convNewline input [NL]\<rparr>) c)
             (Split (ReplaceAllString (reNotes p) (convNewline input [NL]) []) [NL])
      else upd (\<lambda>d. d\<lparr>CommitData.Body := convNewline input [NL]\<rparr>) c)"
  define v0 where "v0 = \<lparr> bCommit = c3, inNote = False, trim = False,
                         fenceDetector = newMdFenceDetector, trimmedBody = [] \<rparr>"
  have inv: "noteInv v0" by (simp add: noteInv_def v0_def)
  have d: "Refs (data c3) = Refs (data c)" "Mentions (data c3) = Mentions (data c)"
     "CoAuthors (data c3) = CoAuthors (data c)" "Signers (data c3) = Signers (data c)"
    by (simp_all add: c3_def)
  obtain v' where v': "bodyLoop p v0 (Split (convNewline input [NL]) [NL]) = Inr v'"
      "Refs (data (bCommit v')) = Refs (data (bCommit v0)) @
         concat (map (parseRefs p) (outsideFence (fenceDetector v0) (Split (convNewline input [NL]) [NL])))"
      "Mentions (data (bCommit v')) = Mentions (data (bCommit v0)) @
         concat (map (parseMentions p) (outsideFence (fenceDetector v0) (Split (convNewline input [NL]) [NL])))"
      "CoAuthors (data (bCommit v')) = CoAuthors (data (bCommit v0)) @
         concat (map (parseCoAuthors p) (outsideFence (fenceDetector v0) (Split (convNewline input [NL]) [NL])))"
      "Signers (data (bCommit v')) = Signers (data (bCommit v0)) @
         concat (map (parseSigners p) (outsideFence (fenceDetector v0) (Split (convNewline input [NL]) [NL])))"
    using bodyLoop_Inr [OF inv, of p "Split (convNewline input [NL]) [NL]"] by blast
  have "processBody p c input =
          Inr (trimSpaceInNotes
                 (upd (\<lambda>d. d\<lparr>TrimmedBody := TrimSpace (Join (trimmedBody v') [NL])\<rparr>) (bCommit v')))"
    using v'(1) unfolding processBody_def Let_def c3_def [symmetric] v0_def [symmetric] by simp
  then show ?thesis
    using v'(2-5) d by (simp add: trimSpaceInNotes_def v0_def)
qed

lemma bodyStep_kept:
  assumes "bodyStep p v line = Inr v'" and "inNote v \<longrightarrow> trim v"
  shows "(inNote v' \<longrightarrow> trim v')
     \<and> fenceDetector v' = Update (fenceDetector v) line
     \<and> inNote v' =
         (if FindAllStringSubmatch (reNotes p) line \<noteq> [] then True
          else if (if InCodeblock (Update (fenceDetector v) line) then False else hasMetadata p line)
               then False else inNote v)
     \<and> trimmedBody v' = trimmedBody v @
         (if inNote v \<or> (if InCodeblock (Update (fenceDetector v) line) then False else hasMetadata p line)
             \<or> FindAllStringSubmatch (reNotes p) line \<noteq> [] then [] else [line])"
  using assms
  by (auto simp: bodyStep_def extractLineMetadata_eq hasMetadata_def Let_def
           split: if_splits list.splits)

lemma bodyLoop_kept:
  assumes "bodyLoop p v lines = Inr v'" and "inNote v \<longrightarrow> trim v"
  shows "trimmedBody v' = trimmedBody v @ keptLines p (inNote v) (fenceDetector v) lines"
  using assms
proof (induction lines arbitrary: v)
  case Nil
  then show ?case by simp
next
  case (Cons line lines)
  then obtain v1 where v1: "bodyStep p v line = Inr v1" "bodyLoop p v1 lines = Inr v'"
    by (auto simp: andThen_def split: sum.splits)
  note k = bodyStep_kept [OF v1(1) Cons.prems(2)]
  have "trimmedBody v' = trimmedBody v1 @ keptLines p (inNote v1) (fenceDetector v1) lines"
    using Cons.IH [OF v1(2)] k by blast
  then show ?case using k by (simp add: Let_def)
qed

lemma processBody_trimmed:
  assumes "processBody p c input = Inr c'"
  shows "TrimmedBody (data c') =
           TrimSpace (Join (keptLines p False newMdFenceDetector (Split (convNewline input [NL]) [NL])) [NL])"
proof -
  define c3 where "c3 = upd (\<lambda>d. d\<lparr>CommitData.Notes := []\<rparr>)
     (if MultilineCommit (Options (config p))
      then subCommitsLoop p (upd (\<lambda>d. d\<lparr>CommitData.Body := convNewline input [NL]\<rparr>) c)
             (Split (ReplaceAllString (reNotes p) (convNewline input [NL]) []) [NL])
      else upd (\<lambda>d. d\<lparr>CommitData.Body := convNewline input [NL]\<rparr>) c)"
  define v0 where "v0 = \<lparr> bCommit = c3, inNote = False, trim = False,
                         fenceDetector = newMdFenceDetector, trimmedBody = [] \<rparr>"
  obtain v' where v': "bodyLoop p v0 (Split (convNewline input [NL]) [NL]) = Inr v'"
     "c' = trimSpaceInNotes
             (upd (\<lambda>d. d\<lparr>TrimmedBody := TrimSpace (Join (trimmedBody v') [NL])\<rparr>) (bCommit v'))"
    using assms unfolding processBody_def Let_def c3_def [symmetric] v0_def [symmetric]
    by (auto simp: andThen_def split: sum.splits)
  have "trimmedBody v' = keptLines p False newMdFenceDetector (Split (convNewline input [NL]) [NL])"
    using bodyLoop_kept [OF v'(1)] by (simp add: v0_def)
  then show ?thesis by (simp add: v'(2) trimSpaceInNotes_def)
qed

lemma keptLines_append:
  "keptLines p n d (pre @ post) =
     keptLines p n d pre @ keptLines p (fst (stateAfter p n d pre)) (snd (stateAfter p n d pre)) post"
  by (induction pre arbitrary: n d) (simp_all add: Let_def)

lemma keptLines_fenced:
  assumes "stateAfter p n d0 pre = (False, d)" "InCodeblock (Update d line)"
    "FindAllStringSubmatch (reNotes p) line = []"
  shows "keptLines p n d0 (pre @ line # post) =
           keptLines p n d0 pre @ [line] @ keptLines p False (Update d line) post"
  using assms by (simp add: keptLines_append Let_def)

lemma Index_0_iff: "Index s sub = 0 \<longleftrightarrow> prefix sub s"
  by (cases s) (auto simp: Let_def)

lemma UpdateLoop_open:
  assumes "fence d < 0"
  shows "fence (UpdateLoop d line i ts) =
           (case find (\<lambda>(j, s). prefix s line) (zip [i ..< i + length ts] ts) of
              None \<Rightarrow> fence d | Some (j, s) \<Rightarrow> int j)"
  using assms
proof (induction ts arbitrary: i)
  case Nil
  then show ?case by simp
next
  case (Cons t ts)
  have "[i ..< i + length (t # ts)] = i # [Suc i ..< Suc i + length ts]"
    by (simp add: upt_rec)
  then show ?case using Cons by (simp add: Index_0_iff)
qed

lemma UpdateLoop_close:
  assumes "0 \<le> fence d"
  shows "fence (UpdateLoop d line i ts) =
           (if \<exists>k < length ts. int (i + k) = fence d \<and> prefix (ts ! k) line then - 1 else fence d)"
  using assms
proof (induction ts arbitrary: i)
  case Nil
  then show ?case by simp
next
  case (Cons t ts)
  have ex: "(\<exists>k < length (t # ts). int (i + k) = fence d \<and> prefix ((t # ts) ! k) line) \<longleftrightarrow>
        (int i = fence d \<and> prefix t line) \<or> (\<exists>k < length ts. int (Suc i + k) = fence d \<and> prefix (ts ! k) line)"
    by (auto simp: less_Suc_eq_0_disj)
  show ?case
    unfolding ex using Cons.prems Cons.IH [OF Cons.prems, of "Suc i"]
    by (auto simp: Index_0_iff)
qed

lemma Update_closes_same_marker:
  assumes "fence d = int k" "k < length fenceTypes"
  shows "fence (Update d line) = (if prefix (fenceTypes ! k) line then - 1 else int k)"
proof -
  have "(\<exists>j < length fenceTypes. int (0 + j) = fence d \<and> prefix (fenceTypes ! j) line)
          \<longleftrightarrow> prefix (fenceTypes ! k) line"
    using assms by auto
  then show ?thesis
    using UpdateLoop_close [of d line 0 fenceTypes] assms by (simp add: Update_def)
qed

lemma Update_opens_first:
  assumes "fence d < 0"
  shows "fence (Update d line) =
     (if prefix ''```'' line then 0 else if prefix ''~~~'' line then 1
      else if prefix ''    '' line then 2 else if prefix [TAB] line then 3 else fence d)"
  using UpdateLoop_open [OF assms, of line 0 fenceTypes]
  by (simp add: Update_def fenceTypes_def upt_rec)

lemma fence_stays_open:
  assumes "fence d = int k" "k < length fenceTypes" "\<forall>l \<in> set ls. \<not> prefix (fenceTypes ! k) l"
  shows "fence (foldl Update d ls) = int k"
  using assms by (induction ls arbitrary: d) (simp_all add: Update_closes_same_marker)

lemma exFencedBody_facts:
  "Split (convNewline exFencedBody [NL]) [NL] = [''```''] @ ''#42'' # [''```'']"
  "stateAfter exParser False newMdFenceDetector [''```''] = (False, \<lparr> fence = 0 \<rparr>)"
  "InCodeblock (Update \<lparr> fence = 0 \<rparr> ''#42'')"
  "FindAllStringSubmatch (reNotes exParser) ''#42'' = []"
  "parseRefs exParser ''#42'' = [\<lparr> Action = [], Source = [], Ref = ''42'' \<rparr>]"
  "TrimSpace (Join (keptLines exParser False newMdFenceDetector [''```''] @ [''#42'']
                      @ keptLines exParser False (Update \<lparr> fence = 0 \<rparr> ''#42'') [''```'']) [NL])
     = exFencedBody"
  "concat (map (parseRefs exParser)
     (outsideFence newMdFenceDetector (Split (convNewline exFencedBody [NL]) [NL]))) = []"
  by code_simp+

text \<open>
  Claim C5, as amended. Body processing always returns. The references, mentions,
  co-authors and sign-offs it adds to the commit it processes are exactly those found
  on the lines outside a code block, in order: nothing on a line inside an open fence
  is added to them. The trimmed body of the returned commit is the white-space trimmed
  join of the kept lines; a line inside an open fence that is reached with no note open
  and does not match the note pattern is one of them, between the kept lines before it
  and those after it. With no fence open, a line opens the fence of the first marker
  type (backticks, tildes, four spaces, tab) it begins with, and none if it begins with
  no marker; an open fence of marker type \<open>k\<close> is closed by a line exactly when the
  line begins with the marker of type \<open>k\<close>, so the fence stays open, with its type,
  over lines none of which begins with that marker.
\<close>

theorem fenced_lines_not_extracted:
  "(\<exists>c'. processBody p c input = Inr c'
      \<and> Refs (data c') = Refs (data c) @
           concat (map (parseRefs p) (outsideFence newMdFenceDetector (Split (convNewline input [NL]) [NL])))
      \<and> Mentions (data c') = Mentions (data c) @
           concat (map (parseMentions p) (outsideFence newMdFenceDetector (Split (convNewline input [NL]) [NL])))
      \<and> CoAuthors (data c') = CoAuthors (data c) @
           concat (map (parseCoAuthors p) (outsideFence newMdFenceDetector (Split (convNewline input [NL]) [NL])))
      \<and> Signers (data c') = Signers (data c) @
           concat (map (parseSigners p) (outsideFence newMdFenceDetector (Split (convNewline input [NL]) [NL])))
      \<and> TrimmedBody (data c') =
           TrimSpace (Join (keptLines p False newMdFenceDetector (Split (convNewline input [NL]) [NL])) [NL]))
   \<and> (Split (convNewline input [NL]) [NL] = pre @ line # post
        \<and> stateAfter p False newMdFenceDetector pre = (False, d)
        \<and> InCodeblock (Update d line)
        \<and> FindAllStringSubmatch (reNotes p) line = []
      \<longrightarrow> (\<exists>c'. processBody p c input = Inr c'
             \<and> TrimmedBody (data c') =
                  TrimSpace (Join (keptLines p False newMdFenceDetector pre @ [line]
                                     @ keptLines p False (Update d line) post) [NL])))
   \<and> (fence d' < 0
      \<longrightarrow> fence (Update d' line') =
            (if prefix ''```'' line' then 0 else if prefix ''~~~'' line' then 1
             else if prefix ''    '' line' then 2 else if prefix [TAB] line' then 3 else fence d'))
   \<and> (fence d' = int k \<and> k < length fenceTypes
      \<longrightarrow> fence (Update d' line') = (if prefix (fenceTypes ! k) line' then - 1 else int k))
   \<and> (fence d' = int k \<and> k < length fenceTypes \<and> (\<forall>l \<in> set ls. \<not> prefix (fenceTypes ! k) l)
      \<longrightarrow> fence (foldl Update d' ls) = int k)"
proof -
  obtain c' where c': "processBody p c input = Inr c'"
      "Refs (data c') = Refs (data c) @
         concat (map (parseRefs p) (outsideFence newMdFenceDetector (Split (convNewline input [NL]) [NL])))"
      "Mentions (data c') = Mentions (data c) @
         concat (map (parseMentions p) (outsideFence newMdFenceDetector (Split (convNewline input [NL]) [NL])))"
      "CoAuthors (data c') = CoAuthors (data c) @
         concat (map (parseCoAuthors p) (outsideFence newMdFenceDetector (Split (convNewline input [NL]) [NL])))"
      "Signers (data c') = Signers (data c) @
         concat (map (parseSigners p) (outsideFence newMdFenceDetector (Split (convNewline input [NL]) [NL])))"
    using processBody_Inr [of p c input] by blast
  note t = processBody_trimmed [OF c'(1)]
  have kept: "TrimmedBody (data c') =
      TrimSpace (Join (keptLines p False newMdFenceDetector pre @ [line]
                         @ keptLines p False (Update d line) post) [NL])"
    if "Split (convNewline input [NL]) [NL] = pre @ line # post"
      "stateAfter p False newMdFenceDetector pre = (False, d)"
      "InCodeblock (Update d line)" "FindAllStringSubmatch (reNotes p) line = []"
    using t keptLines_fenced [OF that(2-4), of post] by (simp add: that(1))
  show ?thesis
    using c' t kept Update_opens_first [of d' line'] Update_closes_same_marker [of d' k line']
      fence_stays_open [of d' k ls]
    by blast
qed

theorem fenced_lines_not_extracted_witness:
  "(\<exists>c'. processBody exParser zeroCommit exFencedBody = Inr c'
      \<and> TrimmedBody (data c') = exFencedBody \<and> Refs (data c') = [])
   \<and> parseRefs exParser ''#42'' = [\<lparr> Action = [], Source = [], Ref = ''42'' \<rparr>]
   \<and> fence (Update newMdFenceDetector ''~~~'') = 1
   \<and> fence (Update \<lparr> fence = 1 \<rparr> ''```'') = 1
   \<and> fence (Update \<lparr> fence = 1 \<rparr> ''~~~'') = - 1
   \<and> fence (foldl Update \<lparr> fence = 1 \<rparr> [''```'', ''#42'']) = 1"
proof -
  note inst = fenced_lines_not_extracted
    [where p = exParser and c = zeroCommit and input = exFencedBody and pre = "[''```'']"
       and line = "''#42''" and post = "[''```'']" and d = "\<lparr> fence = 0 \<rparr>"]
  obtain c' where c': "processBody exParser zeroCommit exFencedBody = Inr c'"
      "TrimmedBody (data c') =
         TrimSpace (Join (keptLines exParser False newMdFenceDetector [''```''] @ [''#42'']
                            @ keptLines exParser False (Update \<lparr> fence = 0 \<rparr> ''#42'') [''```'']) [NL])"
    using inst exFencedBody_facts(1-4) by blast
  have "Refs (data c') = Refs (data zeroCommit) @ concat (map (parseRefs exParser)
          (outsideFence newMdFenceDetector (Split (convNewline exFencedBody [NL]) [NL])))"
    using inst c'(1) by auto
  then have refs: "Refs (data c') = []"
    unfolding exFencedBody_facts(7) by (simp add: zeroCommit_def)
  have l: "1 < length fenceTypes" "fenceTypes ! 1 = ''~~~''" by (simp_all add: fenceTypes_def)
  have f1: "fence (Update newMdFenceDetector ''~~~'') = 1"
    using fenced_lines_not_extracted [where d' = newMdFenceDetector and line' = "''~~~''"]
    by (simp add: newMdFenceDetector_def)
  have f2: "fence (Update \<lparr> fence = 1 \<rparr> ''```'') = 1"
    using fenced_lines_not_extracted [where d' = "\<lparr> fence = 1 \<rparr>" and line' = "''```''" and k = 1] l
    by simp
  have f3: "fence (Update \<lparr> fence = 1 \<rparr> ''~~~'') = - 1"
    using fenced_lines_not_extracted [where d' = "\<lparr> fence = 1 \<rparr>" and line' = "''~~~''" and k = 1] l
    by simp
  have f4: "fence (foldl Update \<lparr> fence = 1 \<rparr> [''```'', ''#42'']) = 1"
    using fenced_lines_not_extracted
      [where d' = "\<lparr> fence = 1 \<rparr>" and k = 1 and ls = "[''```'', ''#42'']"] l
    by simp
  show ?thesis
    using c'(1) c'(2) [unfolded exFencedBody_facts(6)] refs exFencedBody_facts(5) f1 f2 f3 f4
    by blast
qed

text \<open>
  Claim C5 as stated fails. In \<open>exFencedNoteBody\<close> the line \<open>fix: #42 @bob\<close> lies
  inside a fence of backticks and is reached with a note open. It does not remain in
  the trimmed body: it continues the note, and the trimmed body is empty. With
  multi-line splitting on, its reference and its mention are extracted all the same:
  the line becomes a sub-commit, whose \<open>Refs\<close> and \<open>Mentions\<close> hold them.
\<close>

theorem processBody_fenced_line_trimmed:
  "processBody exParser zeroCommit exFencedNoteBody
   = Inr (Commit
            ((data zeroCommit)
               \<lparr> CommitData.Body := exFencedNoteBody,
                 CommitData.Notes :=
                   [\<lparr> Note.Title = ''BREAKING CHANGE'',
                      Note.Body = ''x'' @ [NL] @ ''```'' @ [NL] @ ''fix: #42 @bob'' @ [NL] @ ''```'' \<rparr>],
                 Refs := [],
                 Mentions := [],
                 TrimmedBody := [] \<rparr>)
            [Commit
               ((data zeroCommit)
                  \<lparr> Header := ''fix: #42 @bob'', CommitData.Type := ''fix'', Subject := ''#42 @bob'',
                    Refs := [\<lparr> Action = [], Source = [], Ref = ''42'' \<rparr>],
                    Mentions := [''bob''] \<rparr>)
               []])"
  by code_simp

section \<open>Properties of the parsed commits\<close>



















text \<open>
  Claim C1 at a failing input. With multi-line splitting on, the record with subject
  \<open>feat: a\<close> and body \<open>fix: b\<close> parses to a commit whose changed files are those
  that \<open>diff-tree\<close> reports and which has one sub-commit, with the header \<open>fix: b\<close>
  and the hash of the parent, but with no changed files: the sub-commit copies
  \<open>ChangedFiles\<close> before the parent receives them.
\<close>

theorem parseCommit_subcommit_changed_files:
  "parseCommit exParser (exRecord ''feat: a'' ''fix: b'')
   = Inr (Commit
            (exData
               \<lparr> Header := ''feat: a'', CommitData.Type := ''feat'', Subject := ''a'',
                 CommitData.Body := ''fix: b'', TrimmedBody := ''fix: b'',
                 ChangedFiles := [''a.go''] \<rparr>)
            [Commit
               (exData
                  \<lparr> Header := ''fix: b'', CommitData.Type := ''fix'', Subject := ''b'',
                    ChangedFiles := [] \<rparr>)
               []])"
  by code_simp

text \<open>
  Claim C2 at a failing input. The log holds two records; the post-processor returns
  nothing for the first. \<open>Parse\<close> returns two entries, the first of them \<open>nil\<close>.
\<close>

theorem Parse_keeps_nil_for_discarded:
  "Parse exParserDropping ''HEAD''
   = Inr [None,
          Some (Commit
                  (exData
                     \<lparr> Header := ''feat: a'', CommitData.Type := ''feat'', Subject := ''a'',
                       ChangedFiles := [''a.go''] \<rparr>)
                  [])]"
  by code_simp

section \<open>Properties of the record parser\<close>

lemma Index_bounds: "- 1 \<le> Index s sub \<and> Index s sub \<le> int (length s)"
  by (induction s) (auto simp: Let_def)

lemma Index_lt: "sub \<noteq> [] \<Longrightarrow> Index s sub < int (length s)"
  by (induction s) (auto simp: Let_def)

lemma slice_field:
  "0 \<le> Index token '':'' \<Longrightarrow> slice token 0 (Index token '':'') = Inr (take (nat (Index token '':'')) token)"
  using Index_bounds [of token "'':''"] by (simp add: slice_def)

lemma slice_value:
  "0 \<le> Index token '':'' \<Longrightarrow>
   slice token (Index token '':'' + 1) (int (length token)) = Inr (drop (nat (Index token '':'') + 1) token)"
  using Index_lt [of "'':''" token] by (simp add: slice_def nat_add_distrib)

lemma slice_no_colon:
  "Index token '':'' < 0 \<Longrightarrow> slice token 0 (Index token '':'') = Inl PanicSliceBounds"
  by (simp add: slice_def)

lemma parseHash_cases:
  "parseHash v = (if 2 \<le> length (Split v [TAB])
                  then Inr \<lparr> Long = Split v [TAB] ! 0, Short = Split v [TAB] ! 1 \<rparr>
                  else Inl PanicIndex)"
  by (auto simp: parseHash_def index_def Let_def)

lemma parseAuthor_cases:
  "(3 \<le> length (Split v [TAB]) \<longrightarrow> (\<exists>a. parseAuthor v = Inr a))
   \<and> (\<not> 3 \<le> length (Split v [TAB]) \<longrightarrow> parseAuthor v = Inl PanicIndex)"
  by (auto simp: parseAuthor_def index_def Let_def)

lemma parseCommitter_cases:
  "(3 \<le> length (Split v [TAB]) \<longrightarrow> (\<exists>a. parseCommitter v = Inr a))
   \<and> (\<not> 3 \<le> length (Split v [TAB]) \<longrightarrow> parseCommitter v = Inl PanicIndex)"
  using parseAuthor_cases [of v] by (auto simp: parseCommitter_def)

lemma field_names_distinct:
  "hashField \<noteq> authorField" "hashField \<noteq> committerField" "hashField \<noteq> subjectField"
  "hashField \<noteq> bodyField" "authorField \<noteq> committerField" "authorField \<noteq> subjectField"
  "authorField \<noteq> bodyField" "committerField \<noteq> subjectField" "committerField \<noteq> bodyField"
  "subjectField \<noteq> bodyField"
  by (simp_all add: hashField_def authorField_def committerField_def subjectField_def bodyField_def)

lemma tokensLoop_well_formed_token:
  assumes "wellFormedTrimmedToken token"
  shows "\<exists>c1. tokensLoop p c (token # tokens) = tokensLoop p c1 tokens"
proof -
  let ?i = "Index token '':''"
  let ?field = "take (nat ?i) token"
  let ?val = "TrimSpace (drop (nat ?i + 1) token)"
  have i: "0 \<le> ?i" using assms by (auto simp: wellFormedTrimmedToken_def Let_def split: if_splits)
  have h: "?field = hashField \<Longrightarrow> 2 \<le> length (Split ?val [TAB])"
    and a: "?field = authorField \<Longrightarrow> 3 \<le> length (Split ?val [TAB])"
    and cm: "?field = committerField \<Longrightarrow> 3 \<le> length (Split ?val [TAB])"
    using assms i field_names_distinct by (auto simp: wellFormedTrimmedToken_def Let_def split: if_splits)
  obtain b where b: "processBody p c ?val = Inr b" using processBody_Inr [of p c ?val] by blast
  consider (H) "?field = hashField" | (A) "?field = authorField" | (C) "?field = committerField"
    | (S) "?field = subjectField" | (B) "?field = bodyField"
    | (O) "?field \<noteq> hashField" "?field \<noteq> authorField" "?field \<noteq> committerField"
          "?field \<noteq> subjectField" "?field \<noteq> bodyField"
    by blast
  then show ?thesis
  proof cases
    case H
    then show ?thesis
      using h by (auto simp: slice_field [OF i] slice_value [OF i] Let_def parseHash_cases)
  next
    case A
    obtain au where "parseAuthor ?val = Inr au" using parseAuthor_cases [of ?val] a [OF A] by blast
    then show ?thesis
      using A field_names_distinct by (auto simp: slice_field [OF i] slice_value [OF i] Let_def)
  next
    case C
    obtain au where "parseCommitter ?val = Inr au" using parseCommitter_cases [of ?val] cm [OF C] by blast
    then show ?thesis
      using C field_names_distinct by (auto simp: slice_field [OF i] slice_value [OF i] Let_def)
  next
    case S
    then show ?thesis
      using field_names_distinct by (auto simp: slice_field [OF i] slice_value [OF i] Let_def)
  next
    case B
    then show ?thesis
      using b field_names_distinct by (auto simp: slice_field [OF i] slice_value [OF i] Let_def)
  next
    case O
    then show ?thesis
      by (auto simp: slice_field [OF i] slice_value [OF i] Let_def)
  qed
qed

lemma tokensLoop_ill_formed_token:
  assumes "\<not> wellFormedTrimmedToken token"
  shows "tokensLoop p c (token # tokens) = Inl PanicSliceBounds
       \<or> tokensLoop p c (token # tokens) = Inl PanicIndex"
proof (cases "Index token '':'' < 0")
  case True
  then show ?thesis by (simp add: slice_no_colon Let_def)
next
  case False
  let ?i = "Index token '':''"
  let ?field = "take (nat ?i) token"
  let ?val = "TrimSpace (drop (nat ?i + 1) token)"
  have i: "0 \<le> ?i" using False by simp
  consider (H) "?field = hashField" "\<not> 2 \<le> length (Split ?val [TAB])"
    | (A) "?field = authorField" "\<not> 3 \<le> length (Split ?val [TAB])"
    | (C) "?field = committerField" "\<not> 3 \<le> length (Split ?val [TAB])"
    using assms False by (auto simp: wellFormedTrimmedToken_def Let_def split: if_splits)
  then show ?thesis
  proof cases
    case H
    then show ?thesis
      by (simp add: slice_field [OF i] slice_value [OF i] Let_def parseHash_cases)
  next
    case A
    then have "parseAuthor ?val = Inl PanicIndex" using parseAuthor_cases [of ?val] by blast
    then show ?thesis
      using A field_names_distinct by (simp add: slice_field [OF i] slice_value [OF i] Let_def)
  next
    case C
    then have "parseCommitter ?val = Inl PanicIndex" using parseCommitter_cases [of ?val] by blast
    then show ?thesis
      using C field_names_distinct by (simp add: slice_field [OF i] slice_value [OF i] Let_def)
  qed
qed

lemma tokensLoop_cases:
  "(list_all wellFormedTrimmedToken tokens \<longrightarrow> (\<exists>c'. tokensLoop p c tokens = Inr c'))
   \<and> (\<not> list_all wellFormedTrimmedToken tokens \<longrightarrow>
        tokensLoop p c tokens = Inl PanicSliceBounds \<or> tokensLoop p c tokens = Inl PanicIndex)"
proof (induction tokens arbitrary: c)
  case Nil
  then show ?case by simp
next
  case (Cons token tokens)
  show ?case
  proof (cases "wellFormedTrimmedToken token")
    case True
    obtain c1 where "tokensLoop p c (token # tokens) = tokensLoop p c1 tokens"
      using tokensLoop_well_formed_token [OF True] by blast
    then show ?thesis using Cons.IH [of c1] True by simp
  next
    case False
    then show ?thesis using tokensLoop_ill_formed_token [OF False, of p c tokens] by simp
  qed
qed

lemma parseCommit_cases:
  "parseCommit p input =
     (case tokensLoop p zeroCommit (Split input delimiter) of
        Inl e \<Rightarrow> Inl e
      | Inr c \<Rightarrow>
          (case changedFilesQuery p input of
             None \<Rightarrow> Inl PanicNilDeref
           | Some (Inl e) \<Rightarrow> Inl (Error e)
           | Some (Inr out) \<Rightarrow>
               Inr (if length out > 0
                    then upd (\<lambda>d. d\<lparr>ChangedFiles := Split out [NL]\<rparr>)
                           (upd (\<lambda>d. d\<lparr>Mentions := uniqMentions (Mentions d)\<rparr>)
                              (upd (\<lambda>d. d\<lparr>Refs := uniqRefs (Refs d)\<rparr>) c))
                    else upd (\<lambda>d. d\<lparr>Mentions := uniqMentions (Mentions d)\<rparr>)
                           (upd (\<lambda>d. d\<lparr>Refs := uniqRefs (Refs d)\<rparr>) c))))"
  by (auto simp: parseCommit_def changedFilesQuery_def Let_def split: sum.splits option.splits)

lemma exRecord_well_formed: "wellFormedTrimmedRecord (exRecord ''feat: a'' [])"
  by code_simp

lemma TrimSpace_unicode:
  "TrimSpace ([CHR 0xC2, CHR 0xA0, TAB] @ ''e'' @ [TAB] @ ''1'' @ [CHR 0xE2, CHR 0x80, CHR 0xA8, NL])
     = ''e'' @ [TAB] @ ''1''"
  "\<not> wellFormedTrimmedToken (''AUTHOR:'' @ [CHR 0xC2, CHR 0xA0, TAB] @ ''e'' @ [TAB] @ ''1'')"
  "claimedWellFormedToken (''AUTHOR:'' @ [CHR 0xC2, CHR 0xA0, TAB] @ ''e'' @ [TAB] @ ''1'')"
  by code_simp+

text \<open>
  Claim C10, as amended. A slice or index expression of \<open>parseCommit\<close> goes out of
  bounds exactly on the records that are not well formed, where a record is well formed
  when every token holds a colon and the value of a \<open>HASH\<close> token, trimmed of its
  leading and trailing white space, has at least two tab-separated components, the
  trimmed value of an \<open>AUTHOR\<close> or \<open>COMMITTER\<close> token at least three: on a
  well-formed record no such step goes out of bounds, and on every other record the
  parse ends in such a panic. The record \<open>HASH\<close>, a single token without a colon,
  reaches the slice with the index \<open>-1\<close>, whatever the parser's configuration.
\<close>

theorem parseCommit_out_of_bounds:
  "(wellFormedTrimmedRecord input \<longleftrightarrow>
      parseCommit p input \<noteq> Inl PanicSliceBounds \<and> parseCommit p input \<noteq> Inl PanicIndex)
   \<and> parseCommit p ''HASH'' = Inl PanicSliceBounds"
proof -
  have bad: "parseCommit p ''HASH'' = Inl PanicSliceBounds"
  proof -
    have "Split ''HASH'' delimiter = [''HASH'']" "Index ''HASH'' '':'' = - 1" by code_simp+
    then show ?thesis by (simp add: parseCommit_def slice_def Let_def)
  qed
  have "wellFormedTrimmedRecord input \<longleftrightarrow>
      parseCommit p input \<noteq> Inl PanicSliceBounds \<and> parseCommit p input \<noteq> Inl PanicIndex"
    using tokensLoop_cases [of "Split input delimiter" p zeroCommit]
    unfolding wellFormedTrimmedRecord_def parseCommit_cases
    by (auto split: sum.splits option.splits)
  then show ?thesis using bad by blast
qed

theorem parseCommit_out_of_bounds_witness:
  "wellFormedTrimmedRecord (exRecord ''feat: a'' [])
   \<and> parseCommit exParser (exRecord ''feat: a'' []) \<noteq> Inl PanicSliceBounds
   \<and> parseCommit exParser (exRecord ''feat: a'' []) \<noteq> Inl PanicIndex
   \<and> \<not> wellFormedTrimmedRecord ''HASH''
   \<and> parseCommit exParser ''HASH'' = Inl PanicSliceBounds"
  using parseCommit_out_of_bounds [of "exRecord ''feat: a'' []" exParser]
    parseCommit_out_of_bounds [of "''HASH''" exParser] exRecord_well_formed
  by simp

text \<open>
  Claim C10 as stated fails: the components have to be counted after the trimming. In
  the record \<open>exRecordNoName\<close> every token holds a colon and the value of the
  \<open>AUTHOR\<close> token, a tab, \<open>e\<close>, a tab and \<open>1\<close>, has three tab-separated components,
  the first of them empty. \<open>parseCommit\<close> trims the leading tab, splits what is left into
  two components and indexes the third.
\<close>

theorem parseCommit_empty_author_name_panics:
  "claimedWellFormedRecord exRecordNoName
   \<and> length (Split ([TAB] @ ''e'' @ [TAB] @ ''1'') [TAB]) = 3
   \<and> parseCommit exParser exRecordNoName = Inl PanicIndex"
  by code_simp

section \<open>Properties of the whole parse\<close>

lemma splitFrom_nonempty: "splitFrom sep k acc s \<noteq> []"
  by (induction sep k acc s rule: splitFrom.induct) auto

lemma slice_tail: "slice (Split out separator) 1 (int (length (Split out separator))) = Inr (logRecords out)"
proof -
  have "1 \<le> length (Split out separator)"
    using splitFrom_nonempty [of separator 0 "[]" out]
    by (cases "Split out separator") (auto simp: Split_def)
  then show ?thesis by (simp add: slice_def logRecords_def)
qed

lemma parseCommit_Error_iff:
  "parseCommit p input = Inl (Error e) \<longleftrightarrow> changedFilesQuery p input = Some (Inl e)"
  using tokensLoop_cases [of "Split input delimiter" p zeroCommit]
  unfolding parseCommit_cases
  by (cases "list_all wellFormedTrimmedToken (Split input delimiter)")
     (auto simp: changedFilesQuery_def split: sum.splits option.splits)

lemma parseCommit_Inr_iff:
  "(\<exists>c. parseCommit p input = Inr c) \<longleftrightarrow> (\<exists>files. changedFilesQuery p input = Some (Inr files))"
  unfolding parseCommit_cases
  by (auto simp: changedFilesQuery_def split: sum.splits option.splits)

lemma parseLoop_Error_iff:
  "parseLoop p processor commits i lines = Inl (Error e) \<longleftrightarrow>
     (\<exists>k < length lines.
        (\<forall>j < k. \<exists>files. changedFilesQuery p (lines ! j) = Some (Inr files))
        \<and> changedFilesQuery p (lines ! k) = Some (Inl e))"
proof (induction lines arbitrary: commits i)
  case Nil
  then show ?case by simp
next
  case (Cons line lines)
  let ?R = "\<lambda>ls. \<exists>k < length ls.
        (\<forall>j < k. \<exists>files. changedFilesQuery p (ls ! j) = Some (Inr files))
        \<and> changedFilesQuery p (ls ! k) = Some (Inl e)"
  show ?case
  proof (cases "parseCommit p line")
    case (Inl err)
    have nofiles: "\<not> (\<exists>files. changedFilesQuery p line = Some (Inr files))"
      using parseCommit_Inr_iff [of p line] Inl by simp
    have "?R (line # lines) \<longleftrightarrow> changedFilesQuery p line = Some (Inl e)"
    proof
      assume "?R (line # lines)"
      then obtain k where k: "k < length (line # lines)"
          "\<forall>j < k. \<exists>files. changedFilesQuery p ((line # lines) ! j) = Some (Inr files)"
          "changedFilesQuery p ((line # lines) ! k) = Some (Inl e)" by blast
      have "k = 0"
      proof (rule ccontr)
        assume "k \<noteq> 0"
        then have "\<exists>files. changedFilesQuery p ((line # lines) ! 0) = Some (Inr files)"
          using k(2) by blast
        then show False using nofiles by simp
      qed
      then show "changedFilesQuery p line = Some (Inl e)" using k(3) by simp
    next
      assume "changedFilesQuery p line = Some (Inl e)"
      then show "?R (line # lines)" by (intro exI [of _ 0]) simp
    qed
    then show ?thesis
      using Inl parseCommit_Error_iff [of p line e] by auto
  next
    case (Inr c)
    obtain files where files: "changedFilesQuery p line = Some (Inr files)"
      using parseCommit_Inr_iff [of p line] Inr by blast
    have step: "?R (line # lines) \<longleftrightarrow> ?R lines"
    proof
      assume "?R (line # lines)"
      then obtain k where k: "k < length (line # lines)"
          "\<forall>j < k. \<exists>files. changedFilesQuery p ((line # lines) ! j) = Some (Inr files)"
          "changedFilesQuery p ((line # lines) ! k) = Some (Inl e)" by blast
      have "k \<noteq> 0"
      proof
        assume "k = 0"
        then have "changedFilesQuery p line = Some (Inl e)" using k(3) by simp
        then show False using files by simp
      qed
      then obtain k' where k': "k = Suc k'" by (cases k) auto
      have "\<forall>j < k'. \<exists>files. changedFilesQuery p (lines ! j) = Some (Inr files)"
      proof (intro allI impI)
        fix j assume "j < k'"
        then have "Suc j < k" using k' by simp
        then show "\<exists>files. changedFilesQuery p (lines ! j) = Some (Inr files)"
          using k(2) by fastforce
      qed
      then show "?R lines" using k k' by auto
    next
      assume "?R lines"
      then obtain k where k: "k < length lines"
          "\<forall>j < k. \<exists>files. changedFilesQuery p (lines ! j) = Some (Inr files)"
          "changedFilesQuery p (lines ! k) = Some (Inl e)" by blast
      have "\<forall>j < Suc k. \<exists>files. changedFilesQuery p ((line # lines) ! j) = Some (Inr files)"
      proof (intro allI impI)
        fix j assume "j < Suc k"
        then show "\<exists>files. changedFilesQuery p ((line # lines) ! j) = Some (Inr files)"
          using k(2) files by (cases j) auto
      qed
      then show "?R (line # lines)" using k by (intro exI [of _ "Suc k"]) simp
    qed
    show ?thesis
      unfolding step using Inr Cons.IH
      by (cases processor) (simp_all split: option.splits)
  qed
qed

lemma exParserFailing_facts:
  "client exParserFailing ''log'' (logArgs exParserFailing ''HEAD'') = Inr exLog"
  "0 < length (logRecords exLog)"
  "changedFilesQuery exParserFailing (logRecords exLog ! 0) = Some (Inl ''diff-tree failed'')"
  by code_simp+

text \<open>
  Claim C9. \<open>Parse\<close> returns an error exactly when the \<open>log\<close> invocation fails, or
  the \<open>log\<close> succeeds and for some record the changed-files query fails while every
  record before it was parsed with a successful query; the error returned is the one
  the client gave. This holds for every issue tracker, so a failed lookup is never the
  cause; a failed lookup leaves the commit as it was.
\<close>

theorem Parse_error_iff:
  "(Parse p revision = Inl (Error e) \<longleftrightarrow>
      client p ''log'' (logArgs p revision) = Inl e
      \<or> (\<exists>out. client p ''log'' (logArgs p revision) = Inr out
            \<and> (\<exists>k < length (logRecords out).
                  (\<forall>j < k. \<exists>files. changedFilesQuery p (logRecords out ! j) = Some (Inr files))
                  \<and> changedFilesQuery p (logRecords out ! k) = Some (Inl e))))
   \<and> (jiraClient p (JiraIssueID (data c)) = Inl failure \<longrightarrow> processJiraIssue p c issueID = c)"
proof -
  have j: "jiraClient p (JiraIssueID (data c)) = Inl failure \<longrightarrow> processJiraIssue p c issueID = c"
    by (simp add: processJiraIssue_def)
  have "Parse p revision =
          (case client p ''log'' (logArgs p revision) of
             Inl e \<Rightarrow> Inl (Error e)
           | Inr out \<Rightarrow> parseLoop p (Processor (Options (config p)))
                          (replicate (length (logRecords out)) None) 0 (logRecords out))"
    by (simp add: Parse_def logArgs_def Let_def slice_tail split: sum.splits)
  then have "Parse p revision = Inl (Error e) \<longleftrightarrow>
      client p ''log'' (logArgs p revision) = Inl e
      \<or> (\<exists>out. client p ''log'' (logArgs p revision) = Inr out
            \<and> (\<exists>k < length (logRecords out).
                  (\<forall>j < k. \<exists>files. changedFilesQuery p (logRecords out ! j) = Some (Inr files))
                  \<and> changedFilesQuery p (logRecords out ! k) = Some (Inl e)))"
    by (cases "client p ''log'' (logArgs p revision)") (simp_all add: parseLoop_Error_iff)
  then show ?thesis using j by blast
qed

theorem Parse_error_iff_witness:
  "client exParserFailing ''log'' (logArgs exParserFailing ''HEAD'') = Inr exLog
   \<and> changedFilesQuery exParserFailing (logRecords exLog ! 0) = Some (Inl ''diff-tree failed'')
   \<and> Parse exParserFailing ''HEAD'' = Inl (Error ''diff-tree failed'')
   \<and> jiraClient exParserFailing (JiraIssueID (data zeroCommit)) = Inl ''no issue tracker''
   \<and> processJiraIssue exParserFailing zeroCommit [] = zeroCommit"
proof -
  have k: "\<exists>k < length (logRecords exLog).
                  (\<forall>j < k. \<exists>files. changedFilesQuery exParserFailing (logRecords exLog ! j) = Some (Inr files))
                  \<and> changedFilesQuery exParserFailing (logRecords exLog ! k) = Some (Inl ''diff-tree failed'')"
    using exParserFailing_facts(2,3) by (intro exI [of _ 0]) simp
  have jc: "jiraClient exParserFailing (JiraIssueID (data zeroCommit)) = Inl ''no issue tracker''"
    by (simp add: exParserFailing_def newCommitParser_def Let_def)
  show ?thesis
    using Parse_error_iff [of exParserFailing "''HEAD''" "''diff-tree failed''" zeroCommit
        "''no issue tracker''" "[]"] exParserFailing_facts(1,3) k jc
    by simp
qed

end
